theory Spec2Isabelle
  imports Main "HOL-Library.Word"
begin

unbundle bit_operations_syntax

section \<open>The declarations of network.h that helper.h uses\<close>

text \<open>
  Modelled from the spec: network.h is not part of the sources at hand. The enumerations and
  structs below carry the fields that helper.h reads, with the widths its casts and
  comparisons imply (ports are 16-bit, process id and socket hash 32-bit).
\<close>

datatype PacketType = PacketType_None | PacketType_In | PacketType_Out

datatype MessageType = MessageType_None | MessageType_Request | MessageType_Response

datatype PacketRoleType = PacketRoleType_Unknown | PacketRoleType_Client | PacketRoleType_Server

datatype SockAddressType = SockAddressType_IPV4 | SockAddressType_IPV6

text \<open>
  A socket address is a type tag and a union of a 32-bit IPv4 address and a 128-bit IPv6
  address: helper.h reads \<open>Type\<close>, \<open>Addr.IPV4\<close> and \<open>Addr.IPV6\<close>, and hashes the whole object.
  The union is kept as its 16 bytes of storage; the IPv4 member is the first four of them, and
  the other twelve are part of the object whatever the tag says.
\<close>

record SockAddress =
  Type :: SockAddressType
  Addr :: "8 word list"

definition valid_SockAddress :: "SockAddress \<Rightarrow> bool" where
  "valid_SockAddress a \<longleftrightarrow> length (Addr a) = 16"

text \<open>
  Modelled from the spec: \<open>operator==\<close> on socket addresses is declared in network.h. The spec
  calls a socket address a tagged union of an IPv4 and an IPv6 value: two are equal when the
  tags are equal and the member that the tag selects is equal.
\<close>

definition SockAddress_eq :: "SockAddress \<Rightarrow> SockAddress \<Rightarrow> bool" where
  "SockAddress_eq a b \<longleftrightarrow>
     Type a = Type b
     \<and> (if Type a = SockAddressType_IPV4 then take 4 (Addr a) = take 4 (Addr b)
         else take 16 (Addr a) = take 16 (Addr b))"

text \<open>
  Enumerations whose enumerators helper.h never names (socket category, service category,
  protocol type, event type) are kept as their 32-bit underlying value.
\<close>

record NetStatisticsKey =
  PID :: "32 word"
  SockHash :: "32 word"
  SrcAddr :: SockAddress
  SrcPort :: "16 word"
  DstAddr :: SockAddress
  DstPort :: "16 word"
  RoleType :: PacketRoleType
  SockCategory :: "32 word"

record NetStatisticsBase =
  SendBytes :: "64 word"
  RecvBytes :: "64 word"
  SendPackets :: "64 word"
  RecvPackets :: "64 word"

record NetStatisticsTCP =
  Base :: NetStatisticsBase
  SendTotalLatency :: "64 word"
  RecvTotalLatency :: "64 word"

record PacketEventHeader =
  EventType :: "32 word"
  PID :: "32 word"
  SockHash :: "32 word"
  TimeNano :: "64 word"
  SrcAddr :: SockAddress
  SrcPort :: "16 word"
  DstAddr :: SockAddress
  DstPort :: "16 word"

type_synonym addr = "64 word"

record PacketEventData =
  PktType :: "32 word"
  PtlType :: "32 word"
  MsgType :: "32 word"
  RealLen :: "32 word"
  BufferLen :: "32 word"
  Buffer :: addr

text \<open>
  How network.h lays the two structs out in memory is not in the sources at hand either: the
  sizes, the offset of each field, the bytes of an address and the tag of a data event are
  parameters of everything that reads or writes an event through a pointer.
\<close>

record layout =
  sizeof_PacketEventHeader :: nat
  sizeof_PacketEventData :: nat
  sizeof_SockAddress :: nat
  SockAddress_of_bytes :: "8 word list \<Rightarrow> SockAddress"
  PacketEventType_Data :: "32 word"
  offsetof_EventType :: nat
  offsetof_PID :: nat
  offsetof_SockHash :: nat
  offsetof_TimeNano :: nat
  offsetof_SrcAddr :: nat
  offsetof_SrcPort :: nat
  offsetof_DstAddr :: nat
  offsetof_DstPort :: nat
  offsetof_PktType :: nat
  offsetof_PtlType :: nat
  offsetof_MsgType :: nat
  offsetof_RealLen :: nat
  offsetof_BufferLen :: nat
  offsetof_Buffer :: nat

section \<open>Bytes and decimal text\<close>

type_synonym byte = "8 word"

text \<open>The bytes of an integer object in memory, least significant first, and back.\<close>

fun le_bytes :: "nat \<Rightarrow> 'a::len word \<Rightarrow> byte list" where
  "le_bytes 0 w = []"
| "le_bytes (Suc n) w = ucast w # le_bytes n (drop_bit 8 w)"

fun word_of_le :: "byte list \<Rightarrow> 'a::len word" where
  "word_of_le [] = 0"
| "word_of_le (b # bs) = ucast b OR push_bit 8 (word_of_le bs)"

text \<open>\<open>std::to_string\<close> on an unsigned and on a signed integer.\<close>

fun to_string :: "nat \<Rightarrow> string" where
  "to_string n =
     (if n < 10 then [''0123456789'' ! n]
      else to_string (n div 10) @ [''0123456789'' ! (n mod 10)])"

declare to_string.simps [simp del]

definition to_string_int :: "int \<Rightarrow> string" where
  "to_string_int i = (if i < 0 then CHR ''-'' # to_string (nat (- i)) else to_string (nat i))"

section \<open>The platform's address conversion and the other collaborators\<close>

datatype address_family = AF_INET | AF_INET6

text \<open>
  \<open>inet_ntop\<close> reads 4 or 16 bytes and writes text; \<open>inet_pton\<close> returns the parsed bytes, or
  \<open>None\<close> where the C function returns 0 and leaves its destination untouched.
\<close>

record platform =
  inet_ntop :: "address_family \<Rightarrow> byte list \<Rightarrow> string"
  inet_pton :: "address_family \<Rightarrow> string \<Rightarrow> byte list option"

record ServiceMeta =
  Empty :: bool
  Host :: string
  Category :: "32 word"

type_synonym Json_Value = "string \<rightharpoonup> string"

text \<open>
  The service meta cache, the JSON writer and the enum-to-text helpers are declared in headers
  outside helper.h; they are taken as they come.
\<close>

record collaborators =
  GetServiceMeta :: "32 word \<Rightarrow> string \<Rightarrow> ServiceMeta"
  ServiceCategory_Server :: "32 word"
  ServiceCategoryToString :: "32 word \<Rightarrow> string"
  SocketCategoryToString :: "32 word \<Rightarrow> string"
  PacketRoleTypeToString :: "PacketRoleType \<Rightarrow> string"
  PacketEventTypeToString :: "32 word \<Rightarrow> string"
  PacketTypeToString :: "32 word \<Rightarrow> string"
  ProtocolTypeToString :: "32 word \<Rightarrow> string"
  MessageTypeToString :: "32 word \<Rightarrow> string"
  FastWriter_write :: "Json_Value \<Rightarrow> string"

section \<open>Address codec\<close>

definition SockAddressToString :: "platform \<Rightarrow> SockAddress \<Rightarrow> string" where
  "SockAddressToString pf address =
     (if Type address = SockAddressType_IPV4
      then inet_ntop pf AF_INET (take 4 (Addr address))
      else inet_ntop pf AF_INET6 (take 16 (Addr address)))"

text \<open>
  The local \<open>addr\<close> of \<open>SockAddressFromString\<close> is declared without an initialiser: what it
  holds before the two assignments is a parameter. \<open>inet_pton\<close> writes the parsed bytes over
  the start of the union, or nothing when it fails, and its result is not looked at.
\<close>

definition SockAddressFromString :: "platform \<Rightarrow> SockAddress \<Rightarrow> string \<Rightarrow> SockAddress" where
  "SockAddressFromString pf addr ipV4V6 =
     (if CHR ''.'' \<in> set ipV4V6 then
        (let addr = addr\<lparr>Type := SockAddressType_IPV4\<rparr>
         in case inet_pton pf AF_INET ipV4V6 of
              Some bs \<Rightarrow> addr\<lparr>Addr := bs @ drop (length bs) (Addr addr)\<rparr>
            | None \<Rightarrow> addr)
      else
        (let addr = addr\<lparr>Type := SockAddressType_IPV6\<rparr>
         in case inet_pton pf AF_INET6 ipV4V6 of
              Some bs \<Rightarrow> addr\<lparr>Addr := bs @ drop (length bs) (Addr addr)\<rparr>
            | None \<Rightarrow> addr))"

section \<open>Connection keys and the statistics table\<close>

definition NetStatisticsKeyHash :: "NetStatisticsKey \<Rightarrow> 64 word" where
  "NetStatisticsKeyHash key =
     push_bit 32 (ucast (NetStatisticsKey.PID key)) OR ucast (NetStatisticsKey.SockHash key)"

definition NetStatisticsKeyEqual :: "NetStatisticsKey \<Rightarrow> NetStatisticsKey \<Rightarrow> bool" where
  "NetStatisticsKeyEqual a b \<longleftrightarrow>
     NetStatisticsKey.PID a = NetStatisticsKey.PID b
     \<and> NetStatisticsKey.SockHash a = NetStatisticsKey.SockHash b"

text \<open>
  \<open>XXH32\<close> (input bytes, seed) comes from the xxhash library and is a parameter. The first
  call hashes the \<open>sizeof(key.DstAddr)\<close> bytes at \<open>&key.DstAddr\<close>: the bytes of the tag, which
  network.h lays out and which are a parameter too, and all the bytes of the union.
\<close>

definition bytes_of_SockAddress :: "(SockAddressType \<Rightarrow> byte list) \<Rightarrow> SockAddress \<Rightarrow> byte list" where
  "bytes_of_SockAddress bytes_of_Type a = bytes_of_Type (Type a) @ Addr a"

definition MergedNetStatisticsKeyHash ::
  "(byte list \<Rightarrow> 32 word \<Rightarrow> 32 word) \<Rightarrow> (SockAddressType \<Rightarrow> byte list) \<Rightarrow> NetStatisticsKey \<Rightarrow> 64 word"
where
  "MergedNetStatisticsKeyHash XXH32 bytes_of_Type key =
     (let hash = XXH32 (bytes_of_SockAddress bytes_of_Type (NetStatisticsKey.DstAddr key)) 0;
          hash = XXH32 (le_bytes 2 (NetStatisticsKey.DstPort key)) hash;
          hash = XXH32 (le_bytes 4 (NetStatisticsKey.PID key)) hash
      in ucast hash)"

definition MergedNetStatisticsKeyEqual :: "NetStatisticsKey \<Rightarrow> NetStatisticsKey \<Rightarrow> bool" where
  "MergedNetStatisticsKeyEqual a b \<longleftrightarrow>
     NetStatisticsKey.PID a = NetStatisticsKey.PID b
     \<and> NetStatisticsKey.DstPort a = NetStatisticsKey.DstPort b
     \<and> RoleType a = RoleType b
     \<and> SockAddress_eq (NetStatisticsKey.DstAddr a) (NetStatisticsKey.DstAddr b)"

text \<open>
  A \<open>std::unordered_map\<close> with a hash and an equality: the entries in some order, an
  iterator as a position (\<open>None\<close> is \<open>end()\<close>). \<open>find\<close> reaches an entry through the
  bucket of its hash and the equality; \<open>insert\<close> adds nothing when an equal key is there.
\<close>

fun umap_find :: "('k \<Rightarrow> 64 word) \<Rightarrow> ('k \<Rightarrow> 'k \<Rightarrow> bool) \<Rightarrow> ('k \<times> 'v) list \<Rightarrow> 'k \<Rightarrow> nat option" where
  "umap_find h eq [] key = None"
| "umap_find h eq (e # es) key =
     (if h (fst e) = h key \<and> eq (fst e) key then Some 0
      else map_option Suc (umap_find h eq es key))"

definition umap_insert ::
  "('k \<Rightarrow> 64 word) \<Rightarrow> ('k \<Rightarrow> 'k \<Rightarrow> bool) \<Rightarrow> ('k \<times> 'v) list \<Rightarrow> 'k \<times> 'v
     \<Rightarrow> ('k \<times> 'v) list \<times> nat \<times> bool"
where
  "umap_insert h eq m e =
     (case umap_find h eq m (fst e) of
        Some i \<Rightarrow> (m, i, False)
      | None \<Rightarrow> (m @ [e], length m, True))"

type_synonym NetStatisticsHashMap = "(NetStatisticsKey \<times> NetStatisticsTCP) list"

record NetStaticticsMap =
  mHashMap :: NetStatisticsHashMap

text \<open>The function-local static \<open>sNewTcp\<close>: zero-initialised, never written.\<close>

definition sNewTcp :: NetStatisticsTCP where
  "sNewTcp = \<lparr>Base = \<lparr>SendBytes = 0, RecvBytes = 0, SendPackets = 0, RecvPackets = 0\<rparr>,
              SendTotalLatency = 0, RecvTotalLatency = 0\<rparr>"

text \<open>
  \<open>GetStatisticsItem\<close> returns a reference into the table: here the table after the call and
  the position of the entry referred to.
\<close>

definition GetStatisticsItem :: "NetStaticticsMap \<Rightarrow> NetStatisticsKey \<Rightarrow> NetStaticticsMap \<times> nat" where
  "GetStatisticsItem this key =
     (case umap_find NetStatisticsKeyHash NetStatisticsKeyEqual (mHashMap this) key of
        Some findRst \<Rightarrow> (this, findRst)
      | None \<Rightarrow>
          (let (m, insertIter) =
                 umap_insert NetStatisticsKeyHash NetStatisticsKeyEqual (mHashMap this) (key, sNewTcp)
           in (this\<lparr>mHashMap := m\<rparr>, fst insertIter)))"

definition Clear :: "NetStaticticsMap \<Rightarrow> NetStaticticsMap" where
  "Clear this = this\<lparr>mHashMap := []\<rparr>"

section \<open>Record formatter\<close>

type_synonym Log = "(string \<times> string) list"

text \<open>The JSON object \<open>root\<close> that \<open>StatisticsKeyToPB\<close> builds before it writes it.\<close>

definition remote_info_root :: "platform \<Rightarrow> collaborators \<Rightarrow> NetStatisticsKey \<Rightarrow> Json_Value" where
  "remote_info_root pf env key =
     (let remoteIp = SockAddressToString pf (NetStatisticsKey.DstAddr key);
          root = Map.empty(''remote_ip'' \<mapsto> remoteIp);
          root = root(''remote_port'' \<mapsto>
                   (if RoleType key = PacketRoleType_Server then ''0''
                    else to_string (unat (NetStatisticsKey.DstPort key))))
      in if RoleType key = PacketRoleType_Client then
           (let serviceMeta = GetServiceMeta env (NetStatisticsKey.PID key) remoteIp;
                root = root(''remote_type'' \<mapsto>
                         ServiceCategoryToString env
                           (if Empty serviceMeta then ServiceCategory_Server env
                            else Category serviceMeta))
            in if Host serviceMeta \<noteq> [] then root(''remote_host'' \<mapsto> Host serviceMeta) else root)
         else root)"

definition StatisticsKeyToPB :: "platform \<Rightarrow> collaborators \<Rightarrow> NetStatisticsKey \<Rightarrow> Log \<Rightarrow> bool \<Rightarrow> Log" where
  "StatisticsKeyToPB pf env key log withLocalPort =
     (let log = log @ [(''remote_info'', FastWriter_write env (remote_info_root pf env key))];
          log = (if withLocalPort
                 then log @ [(''local_port'', to_string (unat (NetStatisticsKey.SrcPort key)))]
                 else log);
          log = log @ [(''socket_type'', SocketCategoryToString env (SockCategory key))]
      in log @ [(''role'', PacketRoleTypeToString env (RoleType key))])"

definition StatisticsTCPToPB :: "NetStatisticsTCP \<Rightarrow> Log \<Rightarrow> Log" where
  "StatisticsTCPToPB tcp log =
     log @ [(''send_bytes'', to_string (unat (SendBytes (Base tcp)))),
            (''recv_bytes'', to_string (unat (RecvBytes (Base tcp)))),
            (''send_packets'', to_string (unat (SendPackets (Base tcp)))),
            (''recv_packets'', to_string (unat (RecvPackets (Base tcp)))),
            (''send_total_latency'', to_string (unat (SendTotalLatency tcp))),
            (''recv_total_latency'', to_string (unat (RecvTotalLatency tcp)))]"

definition StatisticsPairToPB ::
  "platform \<Rightarrow> collaborators \<Rightarrow> NetStatisticsKey \<Rightarrow> NetStatisticsTCP \<Rightarrow> Log \<Rightarrow> bool \<Rightarrow> Log" where
  "StatisticsPairToPB pf env key tcp log withLocalPort =
     StatisticsTCPToPB tcp (StatisticsKeyToPB pf env key log withLocalPort)"

section \<open>Memory\<close>

text \<open>
  Events are read and written through raw pointers, so memory is explicit: a byte at every
  64-bit address (pointers and \<open>size_t\<close> are 64 bits wide, as the hash that packs a process id
  above 32 bits of a \<open>size_t\<close> assumes; integers are stored least significant byte first).
  Nothing in helper.h checks a pointer against the extent of an allocation, and neither does
  the model.
\<close>

type_synonym heap = "addr \<Rightarrow> byte"

definition NULL :: addr where
  "NULL = 0"

definition load_bytes :: "heap \<Rightarrow> addr \<Rightarrow> nat \<Rightarrow> byte list" where
  "load_bytes h p n = map (\<lambda>i. h (p + of_nat i)) [0..<n]"

definition store_bytes :: "heap \<Rightarrow> addr \<Rightarrow> byte list \<Rightarrow> heap" where
  "store_bytes h p bs = (\<lambda>a. if unat (a - p) < length bs then bs ! unat (a - p) else h a)"

definition load_word :: "heap \<Rightarrow> addr \<Rightarrow> nat \<Rightarrow> 'a::len word" where
  "load_word h p n = word_of_le (load_bytes h p n)"

definition read_PacketEventHeader :: "layout \<Rightarrow> heap \<Rightarrow> addr \<Rightarrow> PacketEventHeader" where
  "read_PacketEventHeader L h p =
     \<lparr>EventType = load_word h (p + of_nat (offsetof_EventType L)) 4,
      PID = load_word h (p + of_nat (offsetof_PID L)) 4,
      SockHash = load_word h (p + of_nat (offsetof_SockHash L)) 4,
      TimeNano = load_word h (p + of_nat (offsetof_TimeNano L)) 8,
      SrcAddr = SockAddress_of_bytes L
                  (load_bytes h (p + of_nat (offsetof_SrcAddr L)) (sizeof_SockAddress L)),
      SrcPort = load_word h (p + of_nat (offsetof_SrcPort L)) 2,
      DstAddr = SockAddress_of_bytes L
                  (load_bytes h (p + of_nat (offsetof_DstAddr L)) (sizeof_SockAddress L)),
      DstPort = load_word h (p + of_nat (offsetof_DstPort L)) 2\<rparr>"

definition read_PacketEventData :: "layout \<Rightarrow> heap \<Rightarrow> addr \<Rightarrow> PacketEventData" where
  "read_PacketEventData L h p =
     \<lparr>PktType = load_word h (p + of_nat (offsetof_PktType L)) 4,
      PtlType = load_word h (p + of_nat (offsetof_PtlType L)) 4,
      MsgType = load_word h (p + of_nat (offsetof_MsgType L)) 4,
      RealLen = load_word h (p + of_nat (offsetof_RealLen L)) 4,
      BufferLen = load_word h (p + of_nat (offsetof_BufferLen L)) 4,
      Buffer = load_word h (p + of_nat (offsetof_Buffer L)) 8\<rparr>"

text \<open>
  What a layout has to satisfy to be the layout of two C structs: every field lies inside its
  struct, and the pointer field of the data section shares no byte with the other fields.
\<close>

definition apart :: "nat \<Rightarrow> nat \<Rightarrow> nat \<Rightarrow> nat \<Rightarrow> bool" where
  "apart x m y n \<longleftrightarrow> x + m \<le> y \<or> y + n \<le> x"

definition wf_layout :: "layout \<Rightarrow> bool" where
  "wf_layout L \<longleftrightarrow>
     sizeof_PacketEventHeader L + sizeof_PacketEventData L < 2 ^ 31
     \<and> offsetof_EventType L + 4 \<le> sizeof_PacketEventHeader L
     \<and> offsetof_PID L + 4 \<le> sizeof_PacketEventHeader L
     \<and> offsetof_SockHash L + 4 \<le> sizeof_PacketEventHeader L
     \<and> offsetof_TimeNano L + 8 \<le> sizeof_PacketEventHeader L
     \<and> offsetof_SrcAddr L + sizeof_SockAddress L \<le> sizeof_PacketEventHeader L
     \<and> offsetof_SrcPort L + 2 \<le> sizeof_PacketEventHeader L
     \<and> offsetof_DstAddr L + sizeof_SockAddress L \<le> sizeof_PacketEventHeader L
     \<and> offsetof_DstPort L + 2 \<le> sizeof_PacketEventHeader L
     \<and> offsetof_PktType L + 4 \<le> sizeof_PacketEventData L
     \<and> offsetof_PtlType L + 4 \<le> sizeof_PacketEventData L
     \<and> offsetof_MsgType L + 4 \<le> sizeof_PacketEventData L
     \<and> offsetof_RealLen L + 4 \<le> sizeof_PacketEventData L
     \<and> offsetof_BufferLen L + 4 \<le> sizeof_PacketEventData L
     \<and> offsetof_Buffer L + 8 \<le> sizeof_PacketEventData L
     \<and> apart (offsetof_PktType L) 4 (offsetof_Buffer L) 8
     \<and> apart (offsetof_PtlType L) 4 (offsetof_Buffer L) 8
     \<and> apart (offsetof_MsgType L) 4 (offsetof_Buffer L) 8
     \<and> apart (offsetof_RealLen L) 4 (offsetof_Buffer L) 8
     \<and> apart (offsetof_BufferLen L) 4 (offsetof_Buffer L) 8"

section \<open>Event formatter\<close>

definition endl :: string where
  "endl = [CHR 0x0A]"

definition PacketEventHeaderToString :: "platform \<Rightarrow> collaborators \<Rightarrow> PacketEventHeader \<Rightarrow> string" where
  "PacketEventHeaderToString pf env header =
     ''EventType : '' @ PacketEventTypeToString env (EventType header) @ endl
     @ ''PID : '' @ to_string (unat (PID header)) @ endl
     @ ''SocketHash : '' @ to_string (unat (SockHash header)) @ endl
     @ ''Time : '' @ to_string (unat (TimeNano header)) @ endl
     @ ''SrcAddress : '' @ SockAddressToString pf (SrcAddr header) @ endl
     @ ''SrcPort : '' @ to_string (unat (SrcPort header)) @ endl
     @ ''DstAddress : '' @ SockAddressToString pf (DstAddr header) @ endl
     @ ''DstPort : '' @ to_string (unat (DstPort header)) @ endl"

text \<open>\<open>snprintf\<close> with \<open>%06d\<close> on a number that is not negative.\<close>

definition printf_06d :: "nat \<Rightarrow> string" where
  "printf_06d i = replicate (6 - length (to_string i)) CHR ''0'' @ to_string i"

definition hex_chars :: string where
  "hex_chars = ''0123456789ABCDEF''"

text \<open>One turn of the dump loop of \<open>PacketEventDataToString\<close>, for index \<open>i\<close> and its byte.\<close>

definition hex_dump_byte :: "nat \<Rightarrow> byte \<Rightarrow> string" where
  "hex_dump_byte i b =
     (if i mod 32 = 0 then printf_06d i @ '' - '' @ printf_06d (i + 32) @ '' : '' else [])
     @ (if i mod 4 = 0 then ''0x'' else [])
     @ [hex_chars ! unat (drop_bit 4 b), hex_chars ! unat (b AND 0x0F)]
     @ (if i mod 4 = 3 then '' '' else [])
     @ (if i mod 32 = 31 then endl else [])"

fun hex_dump :: "nat \<Rightarrow> byte list \<Rightarrow> string" where
  "hex_dump i [] = []"
| "hex_dump i (b # bs) = hex_dump_byte i b @ hex_dump (Suc i) bs"

datatype failure = length_error | out_of_range | buffer_overrun

text \<open>
  With a negative \<open>BufferLen\<close> the loop does not run and the \<open>std::string\<close> constructor is
  asked for more than \<open>max_size()\<close> characters: it throws.
\<close>

definition PacketEventDataToString :: "collaborators \<Rightarrow> heap \<Rightarrow> PacketEventData \<Rightarrow> failure + string" where
  "PacketEventDataToString env h data =
     (if sint (BufferLen data) < 0 then Inl length_error
      else
        (let payload = load_bytes h (Buffer data) (unat (BufferLen data));
             ss = ''###############################'' @ endl
                  @ hex_dump 0 payload
                  @ endl @ ''###############################'' @ endl
         in Inr (''PacketType : '' @ PacketTypeToString env (PktType data) @ endl
               @ ''ProtocolType : '' @ ProtocolTypeToString env (PtlType data) @ endl
               @ ''MessageType : '' @ MessageTypeToString env (MsgType data) @ endl
               @ ''RealLen : '' @ to_string_int (sint (RealLen data)) @ endl
               @ ''BufferLen : '' @ to_string_int (sint (BufferLen data)) @ endl
               @ ''Data : '' @ ss @ endl
               @ ''Data String : '' @ endl @ map (\<lambda>b. char_of (unat b)) payload @ endl)))"

definition PacketEventToString ::
  "platform \<Rightarrow> collaborators \<Rightarrow> layout \<Rightarrow> heap \<Rightarrow> addr \<Rightarrow> 32 word \<Rightarrow> failure + string" where
  "PacketEventToString pf env L h event len =
     (if unat len < sizeof_PacketEventHeader L then Inr ''ErrorLength''
      else
        (let header = read_PacketEventHeader L h event
         in if EventType header = PacketEventType_Data L then
              (let data = read_PacketEventData L h (event + of_nat (sizeof_PacketEventHeader L))
               in case PacketEventDataToString env h data of
                    Inl f \<Rightarrow> Inl f
                  | Inr s \<Rightarrow> Inr (PacketEventHeaderToString pf env header @ endl @ s))
            else Inr (PacketEventHeaderToString pf env header)))"

section \<open>Event framing codec\<close>

text \<open>
  \<open>BufferToPacketEvent\<close> has two reference parameters and writes through \<open>data\<close>: it returns the
  memory after the call, \<open>event\<close> and \<open>len\<close>. The first comparison is made on
  \<open>(uint32_t)buffer_len\<close>, the second on \<open>buffer_len\<close> converted to \<open>size_t\<close>.
\<close>

definition BufferToPacketEvent :: "layout \<Rightarrow> heap \<Rightarrow> addr \<Rightarrow> 32 word \<Rightarrow> heap \<times> addr \<times> 32 word" where
  "BufferToPacketEvent L h buffer buffer_len =
     (let event = NULL; len = buffer_len
      in if unat buffer_len < sizeof_PacketEventHeader L then (h, event, len)
         else
           (let event = buffer
            in if unat (scast buffer_len :: 64 word) = sizeof_PacketEventHeader L
               then (h, event, len)
               else
                 (let data = event + of_nat (sizeof_PacketEventHeader L);
                      h = store_bytes h (data + of_nat (offsetof_Buffer L))
                            (le_bytes 8 (event + of_nat (sizeof_PacketEventHeader L)
                                               + of_nat (sizeof_PacketEventData L)))
                  in (h, event, len))))"

text \<open>
  \<open>PacketEventToBuffer\<close> fills a \<open>std::string\<close>: the result is its bytes. \<open>data->BufferLen\<close> is
  converted to \<open>size_t\<close> in the sum given to \<open>resize\<close>; when it is negative, \<open>resize\<close> throws, or
  \<open>at\<close> throws, or \<open>memcpy\<close> runs past the end of the string.
\<close>

definition PacketEventToBuffer :: "layout \<Rightarrow> heap \<Rightarrow> addr \<Rightarrow> 32 word \<Rightarrow> failure + byte list" where
  "PacketEventToBuffer L h event len =
     (if unat len < sizeof_PacketEventHeader L then Inr []
      else
        (let header = read_PacketEventHeader L h event
         in if EventType header = PacketEventType_Data L then
              (let data = read_PacketEventData L h (event + of_nat (sizeof_PacketEventHeader L));
                   size = (4 + sizeof_PacketEventHeader L + sizeof_PacketEventData L
                           + unat (scast (BufferLen data) :: 64 word)) mod 2 ^ 64
               in if 2 ^ 63 \<le> size then Inl length_error
                  else if size \<le> 4 then Inl out_of_range
                  else if sint (BufferLen data) < 0 then Inl buffer_overrun
                  else Inr (le_bytes 4 (of_nat (size - 4) :: 32 word)
                            @ load_bytes h event
                                (sizeof_PacketEventHeader L + sizeof_PacketEventData L)
                            @ load_bytes h (Buffer data) (unat (BufferLen data))))
            else Inr (le_bytes 4 (of_nat (4 + sizeof_PacketEventHeader L - 4) :: 32 word)
                      @ load_bytes h event (sizeof_PacketEventHeader L))))"

section \<open>Role inference\<close>

definition InferRequestOrResponse :: "PacketType \<Rightarrow> PacketEventHeader \<Rightarrow> MessageType" where
  "InferRequestOrResponse pktType header =
     (if pktType = PacketType_In then
        (if SrcPort header > DstPort header \<or> DstPort header < 30000
         then MessageType_Response else MessageType_Request)
      else if pktType = PacketType_Out then
        (if SrcPort header > DstPort header \<or> DstPort header < 30000
         then MessageType_Request else MessageType_Response)
      else MessageType_None)"

definition InferServerOrClient :: "PacketType \<Rightarrow> MessageType \<Rightarrow> PacketRoleType" where
  "InferServerOrClient pktType messageType =
     (if pktType = PacketType_None \<or> messageType = MessageType_None then PacketRoleType_Unknown
      else if pktType = PacketType_In then
        (if messageType = MessageType_Request then PacketRoleType_Server else PacketRoleType_Client)
      else if pktType = PacketType_Out then
        (if messageType = MessageType_Request then PacketRoleType_Client else PacketRoleType_Server)
      else PacketRoleType_Unknown)"

section \<open>A model of the C library's address conversion\<close>

text \<open>
  \<open>inet_ntop\<close> and \<open>inet_pton\<close> as the C library documents them: dotted decimal for IPv4;
  for IPv6 the hexadecimal groups with the longest run of zero groups written \<open>::\<close> and, for an
  IPv4-mapped or IPv4-compatible address, the last four bytes in dotted decimal.
\<close>

fun split_on :: "char \<Rightarrow> string \<Rightarrow> string list" where
  "split_on c [] = [[]]"
| "split_on c (x # xs) =
     (if x = c then [] # split_on c xs
      else (case split_on c xs of p # ps \<Rightarrow> (x # p) # ps | [] \<Rightarrow> [[x]]))"

definition digit_value :: "char \<Rightarrow> nat option" where
  "digit_value c =
     (let n = (of_char c :: nat)
      in if 48 \<le> n \<and> n \<le> 57 then Some (n - 48)
         else if 97 \<le> n \<and> n \<le> 102 then Some (n - 87)
         else if 65 \<le> n \<and> n \<le> 70 then Some (n - 55)
         else None)"

text \<open>A number in the given base, most significant digit first; \<open>None\<close> on any other character.\<close>

fun number_value :: "nat \<Rightarrow> nat \<Rightarrow> string \<Rightarrow> nat option" where
  "number_value base acc [] = Some acc"
| "number_value base acc (c # cs) =
     (case digit_value c of
        None \<Rightarrow> None
      | Some d \<Rightarrow> if d < base then number_value base (acc * base + d) cs else None)"

text \<open>\<open>%x\<close>: lower-case hexadecimal without leading zeros.\<close>

fun to_hex :: "nat \<Rightarrow> string" where
  "to_hex n =
     (if n < 16 then [''0123456789abcdef'' ! n]
      else to_hex (n div 16) @ [''0123456789abcdef'' ! (n mod 16)])"

declare to_hex.simps [simp del]

definition inet_ntop4 :: "byte list \<Rightarrow> string" where
  "inet_ntop4 src =
     to_string (unat (src ! 0)) @ ''.'' @ to_string (unat (src ! 1)) @ ''.''
     @ to_string (unat (src ! 2)) @ ''.'' @ to_string (unat (src ! 3))"

text \<open>
  One dotted-decimal part: one to three decimal digits, no leading zero, at most 255.
\<close>

definition octet_value :: "string \<Rightarrow> nat option" where
  "octet_value s =
     (if s = [] \<or> 3 < length s \<or> (hd s = CHR ''0'' \<and> length s \<noteq> 1) then None
      else case number_value 10 0 s of
             Some n \<Rightarrow> if n \<le> 255 then Some n else None
           | None \<Rightarrow> None)"

definition inet_pton4 :: "string \<Rightarrow> byte list option" where
  "inet_pton4 src =
     (let parts = map octet_value (split_on CHR ''.'' src)
      in if length parts = 4 \<and> None \<notin> set parts then Some (map (of_nat \<circ> the) parts)
         else None)"

text \<open>The eight 16-bit groups of an IPv6 address, and the run of zero groups that \<open>::\<close> stands for:
  the first among the longest, of two groups at least.\<close>

fun groups_of :: "byte list \<Rightarrow> nat list" where
  "groups_of (a # b # bs) = (unat a * 256 + unat b) # groups_of bs"
| "groups_of bs = []"

definition zero_run_at :: "nat list \<Rightarrow> nat \<Rightarrow> nat" where
  "zero_run_at ws i = length (takeWhile (\<lambda>w. w = 0) (drop i ws))"

definition best_run :: "nat list \<Rightarrow> (nat \<times> nat) option" where
  "best_run ws =
     (let lens = map (zero_run_at ws) [0..<length ws];
          m = fold max lens 0
      in if m < 2 then None
         else Some (length (takeWhile (\<lambda>l. l \<noteq> m) lens), m))"

fun join_colon :: "string list \<Rightarrow> string" where
  "join_colon [] = []"
| "join_colon [p] = p"
| "join_colon (p # ps) = p @ '':'' @ join_colon ps"

text \<open>
  An address whose first five groups are zero and whose sixth is ffff, or whose first six
  groups and no more are zero, is written with its last four bytes in dotted decimal.
\<close>

definition inet_ntop6 :: "byte list \<Rightarrow> string" where
  "inet_ntop6 src =
     (let ws = groups_of src
      in case best_run ws of
           None \<Rightarrow> join_colon (map to_hex ws)
         | Some (base, len) \<Rightarrow>
             if base = 0 \<and> (len = 6 \<or> (len = 5 \<and> ws ! 5 = 0xffff))
             then ''::'' @ (if len = 5 then ''ffff:'' else []) @ inet_ntop4 (drop 12 src)
             else join_colon (map to_hex (take base ws)) @ ''::''
                  @ join_colon (map to_hex (drop (base + len) ws)))"

fun split_double_colon :: "string \<Rightarrow> (string \<times> string) option" where
  "split_double_colon (a # b # cs) =
     (if a = CHR '':'' \<and> b = CHR '':'' then Some ([], cs)
      else map_option (\<lambda>(l, r). (a # l, r)) (split_double_colon (b # cs)))"
| "split_double_colon cs = None"

definition group_bytes :: "string \<Rightarrow> byte list option" where
  "group_bytes s =
     (if s = [] \<or> 4 < length s then None
      else map_option (\<lambda>n. [of_nat (n div 256), of_nat (n mod 256)]) (number_value 16 0 s))"

text \<open>The groups of one side of \<open>::\<close>; only the last part of the text may be dotted decimal.\<close>

fun side_bytes :: "bool \<Rightarrow> string list \<Rightarrow> byte list option" where
  "side_bytes v4 [] = Some []"
| "side_bytes v4 [s] = (if v4 \<and> CHR ''.'' \<in> set s then inet_pton4 s else group_bytes s)"
| "side_bytes v4 (s # ss) =
     (case (group_bytes s, side_bytes v4 ss) of
        (Some a, Some b) \<Rightarrow> Some (a @ b)
      | _ \<Rightarrow> None)"

definition colon_parts :: "string \<Rightarrow> string list" where
  "colon_parts s = (if s = [] then [] else split_on CHR '':'' s)"

definition inet_pton6 :: "string \<Rightarrow> byte list option" where
  "inet_pton6 src =
     (case split_double_colon src of
        None \<Rightarrow>
          (case side_bytes True (colon_parts src) of
             Some bs \<Rightarrow> if length bs = 16 then Some bs else None
           | None \<Rightarrow> None)
      | Some (l, r) \<Rightarrow>
          (case (side_bytes False (colon_parts l), side_bytes True (colon_parts r)) of
             (Some a, Some b) \<Rightarrow>
               if length a + length b < 16
               then Some (a @ replicate (16 - length a - length b) 0 @ b) else None
           | _ \<Rightarrow> None))"

definition libc :: platform where
  "libc = \<lparr>inet_ntop = (\<lambda>af src. case af of AF_INET \<Rightarrow> inet_ntop4 src | AF_INET6 \<Rightarrow> inet_ntop6 src),
           inet_pton = (\<lambda>af src. case af of AF_INET \<Rightarrow> inet_pton4 src | AF_INET6 \<Rightarrow> inet_pton6 src)\<rparr>"

section \<open>The XXH32 algorithm\<close>

text \<open>
  The 32-bit hash of the xxhash library, to run the merged hash on examples: four lanes over
  16-byte stripes, then the remaining bytes four at a time and one at a time, then the final
  mix. Its value on the empty input with seed 0 is 0x02CC5D05.
\<close>

definition PRIME32_1 :: "32 word" where "PRIME32_1 = 0x9E3779B1"
definition PRIME32_2 :: "32 word" where "PRIME32_2 = 0x85EBCA77"
definition PRIME32_3 :: "32 word" where "PRIME32_3 = 0xC2B2AE3D"
definition PRIME32_4 :: "32 word" where "PRIME32_4 = 0x27D4EB2F"
definition PRIME32_5 :: "32 word" where "PRIME32_5 = 0x165667B1"

definition XXH_rotl32 :: "32 word \<Rightarrow> nat \<Rightarrow> 32 word" where
  "XXH_rotl32 x r = push_bit r x OR drop_bit (32 - r) x"

definition XXH32_round :: "32 word \<Rightarrow> 32 word \<Rightarrow> 32 word" where
  "XXH32_round acc input = XXH_rotl32 (acc + input * PRIME32_2) 13 * PRIME32_1"

fun XXH32_stripes ::
  "32 word \<times> 32 word \<times> 32 word \<times> 32 word \<Rightarrow> byte list
     \<Rightarrow> (32 word \<times> 32 word \<times> 32 word \<times> 32 word) \<times> byte list" where
  "XXH32_stripes (v1, v2, v3, v4) p =
     (if 16 \<le> length p then
        XXH32_stripes
          (XXH32_round v1 (word_of_le (take 4 p)),
           XXH32_round v2 (word_of_le (take 4 (drop 4 p))),
           XXH32_round v3 (word_of_le (take 4 (drop 8 p))),
           XXH32_round v4 (word_of_le (take 4 (drop 12 p))))
          (drop 16 p)
      else ((v1, v2, v3, v4), p))"

declare XXH32_stripes.simps [simp del]

fun XXH32_finalize :: "32 word \<Rightarrow> byte list \<Rightarrow> 32 word" where
  "XXH32_finalize h32 p =
     (if 4 \<le> length p then
        XXH32_finalize
          (XXH_rotl32 (h32 + word_of_le (take 4 p) * PRIME32_3) 17 * PRIME32_4) (drop 4 p)
      else case p of
             b # bs \<Rightarrow> XXH32_finalize (XXH_rotl32 (h32 + ucast b * PRIME32_5) 11 * PRIME32_1) bs
           | [] \<Rightarrow> h32)"

declare XXH32_finalize.simps [simp del]

definition XXH32_avalanche :: "32 word \<Rightarrow> 32 word" where
  "XXH32_avalanche h =
     (let h = h XOR drop_bit 15 h;
          h = h * PRIME32_2;
          h = h XOR drop_bit 13 h;
          h = h * PRIME32_3
      in h XOR drop_bit 16 h)"

definition XXH32 :: "byte list \<Rightarrow> 32 word \<Rightarrow> 32 word" where
  "XXH32 input seed =
     (let (h32, p) =
            (if 16 \<le> length input then
               (let ((v1, v2, v3, v4), p) =
                      XXH32_stripes (seed + PRIME32_1 + PRIME32_2, seed + PRIME32_2, seed,
                                     seed - PRIME32_1) input
                in (XXH_rotl32 v1 1 + XXH_rotl32 v2 7 + XXH_rotl32 v3 12 + XXH_rotl32 v4 18, p))
             else (seed + PRIME32_5, input))
      in XXH32_avalanche (XXH32_finalize (h32 + of_nat (length input)) p))"

section \<open>Example values\<close>

definition mapped_v4 :: SockAddress where
  "mapped_v4 = \<lparr>Type = SockAddressType_IPV6,
                 Addr = [0, 0, 0, 0, 0, 0, 0, 0, 0, 0, 0xFF, 0xFF, 1, 2, 3, 4]\<rparr>"

definition doc_v6 :: SockAddress where
  "doc_v6 = \<lparr>Type = SockAddressType_IPV6,
              Addr = [0x20, 0x01, 0x0d, 0xb8, 0, 0, 0, 0, 0, 0, 0, 0, 0, 0, 0, 1]\<rparr>"

definition loopback_v4 :: SockAddress where
  "loopback_v4 = \<lparr>Type = SockAddressType_IPV4,
                   Addr = [127, 0, 0, 1, 0, 0, 0, 0, 0, 0, 0, 0, 0, 0, 0, 0]\<rparr>"

text \<open>What an uninitialised local might hold.\<close>

definition stale_address :: SockAddress where
  "stale_address = \<lparr>Type = SockAddressType_IPV6,
                     Addr = [0xDE, 0xAD, 0xBE, 0xEF, 1, 2, 3, 4, 5, 6, 7, 8, 9, 10, 11, 12]\<rparr>"

text \<open>
  A layout to run examples on: a 20-byte address (tag, then 16 bytes), a 72-byte header and a
  32-byte data section with the payload pointer in its last 8 bytes.
\<close>

definition example_SockAddress_of_bytes :: "byte list \<Rightarrow> SockAddress" where
  "example_SockAddress_of_bytes bs =
     \<lparr>Type = (if (word_of_le (take 4 bs) :: 32 word) = 0 then SockAddressType_IPV4
              else SockAddressType_IPV6),
      Addr = take 16 (drop 4 bs)\<rparr>"

definition example_layout :: layout where
  "example_layout =
     \<lparr>sizeof_PacketEventHeader = 72, sizeof_PacketEventData = 32, sizeof_SockAddress = 20,
      SockAddress_of_bytes = example_SockAddress_of_bytes, PacketEventType_Data = 1,
      offsetof_EventType = 8, offsetof_PID = 0, offsetof_SockHash = 4, offsetof_TimeNano = 16,
      offsetof_SrcAddr = 24, offsetof_SrcPort = 44, offsetof_DstAddr = 48, offsetof_DstPort = 68,
      offsetof_PktType = 0, offsetof_PtlType = 4, offsetof_MsgType = 8, offsetof_RealLen = 12,
      offsetof_BufferLen = 16, offsetof_Buffer = 24\<rparr>"

text \<open>
  An event in memory at address 0x1000 under that layout, with the event type as a parameter:
  process 4242, socket hash 11, 127.0.0.1:50000 to 10.0.0.2:80; then a data section that
  declares 3 bytes of payload at address 0x2000, where the bytes of GET are.
\<close>

definition example_header_bytes :: "byte \<Rightarrow> byte list" where
  "example_header_bytes t =
     [0x92, 0x10, 0, 0,  11, 0, 0, 0,  t, 0, 0, 0,  0, 0, 0, 0,
      0x40, 0x42, 0x0F, 0, 0, 0, 0, 0,
      0, 0, 0, 0,  127, 0, 0, 1,  0, 0, 0, 0, 0, 0, 0, 0, 0, 0, 0, 0,
      0x50, 0xC3,  0, 0,
      0, 0, 0, 0,  10, 0, 0, 2,  0, 0, 0, 0, 0, 0, 0, 0, 0, 0, 0, 0,
      80, 0,  0, 0]"

definition example_data_bytes :: "byte list" where
  "example_data_bytes =
     [1, 0, 0, 0,  2, 0, 0, 0,  1, 0, 0, 0,  3, 0, 0, 0,  3, 0, 0, 0,  0, 0, 0, 0,
      0x00, 0x20, 0, 0, 0, 0, 0, 0]"

definition example_memory :: "byte \<Rightarrow> heap" where
  "example_memory t =
     store_bytes (store_bytes (\<lambda>_. 0) 0x2000 [0x47, 0x45, 0x54]) 0x1000
       (example_header_bytes t @ example_data_bytes)"

definition example_env :: collaborators where
  "example_env =
     \<lparr>GetServiceMeta = (\<lambda>pid ip. \<lparr>Empty = True, Host = [], Category = 0\<rparr>),
      ServiceCategory_Server = 2,
      ServiceCategoryToString = (\<lambda>c. to_string (unat c)),
      SocketCategoryToString = (\<lambda>c. to_string (unat c)),
      PacketRoleTypeToString =
        (\<lambda>r. case r of PacketRoleType_Unknown \<Rightarrow> ''unknown''
                | PacketRoleType_Client \<Rightarrow> ''client'' | PacketRoleType_Server \<Rightarrow> ''server''),
      PacketEventTypeToString = (\<lambda>c. to_string (unat c)),
      PacketTypeToString = (\<lambda>c. to_string (unat c)),
      ProtocolTypeToString = (\<lambda>c. to_string (unat c)),
      MessageTypeToString = (\<lambda>c. to_string (unat c)),
      FastWriter_write = (\<lambda>root. concat (map (\<lambda>k. case root k of Some v \<Rightarrow> k @ ''='' @ v @ '';'' | None \<Rightarrow> [])
                                   [''remote_host'', ''remote_ip'', ''remote_port'', ''remote_type'']))\<rparr>"

definition example_key :: "32 word \<Rightarrow> 16 word \<Rightarrow> PacketRoleType \<Rightarrow> NetStatisticsKey" where
  "example_key sockHash srcPort role =
     \<lparr>NetStatisticsKey.PID = 4242, SockHash = sockHash,
      SrcAddr = \<lparr>Type = SockAddressType_IPV4,
                 Addr = [127, 0, 0, 1, 0, 0, 0, 0, 0, 0, 0, 0, 0, 0, 0, 0]\<rparr>,
      SrcPort = srcPort,
      DstAddr = \<lparr>Type = SockAddressType_IPV4,
                 Addr = [10, 0, 0, 2, 0, 0, 0, 0, 0, 0, 0, 0, 0, 0, 0, 0]\<rparr>,
      DstPort = 8080, RoleType = role, SockCategory = 1\<rparr>"

definition example_tcp :: NetStatisticsTCP where
  "example_tcp = \<lparr>Base = \<lparr>SendBytes = 1500, RecvBytes = 300, SendPackets = 3, RecvPackets = 1\<rparr>,
                  SendTotalLatency = 7, RecvTotalLatency = 9\<rparr>"

definition example_table :: NetStaticticsMap where
  "example_table = \<lparr>mHashMap = [(example_key 11 50001 PacketRoleType_Client, example_tcp)]\<rparr>"

text \<open>
  A second key for the same process, destination port and role as
  \<open>example_key 11 50001 PacketRoleType_Client\<close>, from another socket and source port. Its
  destination address is 10.0.0.2 too, as \<open>SockAddressFromString\<close> returns it when its local
  held \<open>stale_address\<close> before: the twelve bytes of the union that an IPv4 address does not use
  are what was there.
\<close>

definition example_key_other_socket :: NetStatisticsKey where
  "example_key_other_socket =
     (example_key 12 50002 PacketRoleType_Client)
       \<lparr>NetStatisticsKey.DstAddr := SockAddressFromString libc stale_address ''10.0.0.2''\<rparr>"

text \<open>The tag of an address as a 32-bit integer, 0 for IPv4 and 1 for IPv6.\<close>

definition example_bytes_of_Type :: "SockAddressType \<Rightarrow> byte list" where
  "example_bytes_of_Type t =
     (case t of SockAddressType_IPV4 \<Rightarrow> [0, 0, 0, 0] | SockAddressType_IPV6 \<Rightarrow> [1, 0, 0, 0])"

section \<open>Properties of role inference\<close>

text \<open>
  C1. For every header, the message type inferred for an inbound packet is Response when the
  source port is greater than the destination port or the destination port is below 30000, and
  Request otherwise; for an outbound packet the two answers are swapped; for direction None
  the answer is None. In particular, with source port 50000 and destination port 80 an inbound
  packet is a Response and an outbound packet a Request.
\<close>

theorem InferRequestOrResponse_rule:
  "InferRequestOrResponse PacketType_In header =
     (if SrcPort header > DstPort header \<or> DstPort header < 30000
      then MessageType_Response else MessageType_Request)
   \<and> InferRequestOrResponse PacketType_Out header =
     (if SrcPort header > DstPort header \<or> DstPort header < 30000
      then MessageType_Request else MessageType_Response)
   \<and> InferRequestOrResponse PacketType_None header = MessageType_None
   \<and> InferRequestOrResponse PacketType_In (header\<lparr>SrcPort := 50000, DstPort := 80\<rparr>)
       = MessageType_Response
   \<and> InferRequestOrResponse PacketType_Out (header\<lparr>SrcPort := 50000, DstPort := 80\<rparr>)
       = MessageType_Request"
  by (simp add: InferRequestOrResponse_def)

text \<open>
  C7 as the specification words it: an inbound packet with source port 80 and destination
  port 50000 would be a Response. The code answers Request: 80 is not greater than 50000 and
  50000 is not below 30000, so the else branch of the inbound case is taken.
\<close>

theorem InferRequestOrResponse_In_80_50000_not_Response:
  "InferRequestOrResponse PacketType_In
     \<lparr>EventType = 0, PID = 0, SockHash = 0, TimeNano = 0, SrcAddr = loopback_v4, SrcPort = 80,
      DstAddr = loopback_v4, DstPort = 50000\<rparr> \<noteq> MessageType_Response"
  by (simp add: InferRequestOrResponse_def)

text \<open>
  C7, amended. For every header with source port 80 and destination port 50000, the message
  type inferred for an inbound packet is Request.
\<close>

theorem InferRequestOrResponse_In_80_50000_Request:
  "InferRequestOrResponse PacketType_In (header\<lparr>SrcPort := 80, DstPort := 50000\<rparr>)
     = MessageType_Request"
  by (simp add: InferRequestOrResponse_def)

section \<open>Properties of the statistics table\<close>

lemma NetStatisticsKeyEqual_hash:
  "NetStatisticsKeyEqual a b \<Longrightarrow> NetStatisticsKeyHash a = NetStatisticsKeyHash b"
  by (simp add: NetStatisticsKeyEqual_def NetStatisticsKeyHash_def)

lemma umap_find_Some:
  "umap_find h eq m key = Some i \<Longrightarrow>
     i < length m \<and> h (fst (m ! i)) = h key \<and> eq (fst (m ! i)) key"
proof (induction m arbitrary: i)
  case Nil
  then show ?case by simp
next
  case (Cons e es)
  show ?case
  proof (cases "h (fst e) = h key \<and> eq (fst e) key")
    case True
    with Cons.prems show ?thesis by simp
  next
    case False
    with Cons.prems obtain j where j: "umap_find h eq es key = Some j" "i = Suc j"
      by auto
    from Cons.IH [OF j(1)] j(2) show ?thesis by simp
  qed
qed

lemma umap_find_None:
  "umap_find h eq m key = None \<longleftrightarrow> (\<forall>e \<in> set m. \<not> (h (fst e) = h key \<and> eq (fst e) key))"
  by (induction m) auto

text \<open>
  C8. For every key, \<open>GetStatisticsItem\<close> returns the entry already in the table when a key
  equal to it (same process id and socket hash) is present, and the table is unchanged;
  otherwise it appends an entry for the key whose counters are all zero and returns that one.
  After \<open>Clear\<close>, whatever the table held, \<open>GetStatisticsItem\<close> returns a new entry with all
  counters zero.
\<close>

theorem GetStatisticsItem_get_or_create:
  "((\<exists>e \<in> set (mHashMap this). NetStatisticsKeyEqual (fst e) key) \<longrightarrow>
      (\<exists>i. GetStatisticsItem this key = (this, i) \<and> i < length (mHashMap this)
          \<and> NetStatisticsKeyEqual (fst (mHashMap this ! i)) key))
   \<and> (\<not> (\<exists>e \<in> set (mHashMap this). NetStatisticsKeyEqual (fst e) key) \<longrightarrow>
      GetStatisticsItem this key
        = (this\<lparr>mHashMap := mHashMap this @ [(key, sNewTcp)]\<rparr>, length (mHashMap this))
      \<and> (mHashMap this @ [(key, sNewTcp)]) ! length (mHashMap this) = (key, sNewTcp))
   \<and> GetStatisticsItem (Clear this) key = (this\<lparr>mHashMap := [(key, sNewTcp)]\<rparr>, 0)
   \<and> SendBytes (Base sNewTcp) = 0 \<and> RecvBytes (Base sNewTcp) = 0
   \<and> SendPackets (Base sNewTcp) = 0 \<and> RecvPackets (Base sNewTcp) = 0
   \<and> SendTotalLatency sNewTcp = 0 \<and> RecvTotalLatency sNewTcp = 0"
proof -
  let ?m = "mHashMap this"
  let ?find = "umap_find NetStatisticsKeyHash NetStatisticsKeyEqual ?m key"
  have present: "?find = None \<longleftrightarrow> \<not> (\<exists>e \<in> set ?m. NetStatisticsKeyEqual (fst e) key)"
    using NetStatisticsKeyEqual_hash by (auto simp: umap_find_None)
  have hit: "\<exists>i. GetStatisticsItem this key = (this, i) \<and> i < length ?m
               \<and> NetStatisticsKeyEqual (fst (?m ! i)) key"
    if "\<exists>e \<in> set ?m. NetStatisticsKeyEqual (fst e) key"
  proof -
    from that present obtain i where i: "?find = Some i" by fastforce
    from umap_find_Some [OF i] i show ?thesis
      by (simp add: GetStatisticsItem_def)
  qed
  have miss: "GetStatisticsItem this key
                = (this\<lparr>mHashMap := ?m @ [(key, sNewTcp)]\<rparr>, length ?m)"
    if "\<not> (\<exists>e \<in> set ?m. NetStatisticsKeyEqual (fst e) key)"
  proof -
    from that present have "?find = None" by simp
    then show ?thesis by (simp add: GetStatisticsItem_def umap_insert_def)
  qed
  have cleared: "GetStatisticsItem (Clear this) key = (this\<lparr>mHashMap := [(key, sNewTcp)]\<rparr>, 0)"
    by (simp add: GetStatisticsItem_def Clear_def umap_insert_def)
  from hit miss cleared show ?thesis
    by (simp add: sNewTcp_def)
qed

text \<open>
  The example table holds one entry with counters that are not zero: a key with the same
  process id and socket hash finds it, a key with another socket hash gets a new entry, and
  after \<open>Clear\<close> the first key gets a new entry too.
\<close>

theorem GetStatisticsItem_get_or_create_witness:
  "(\<exists>e \<in> set (mHashMap example_table).
       NetStatisticsKeyEqual (fst e) (example_key 11 50002 PacketRoleType_Client))
   \<and> GetStatisticsItem example_table (example_key 11 50002 PacketRoleType_Client)
       = (example_table, 0)
   \<and> snd (mHashMap example_table ! 0) = example_tcp
   \<and> \<not> (\<exists>e \<in> set (mHashMap example_table).
       NetStatisticsKeyEqual (fst e) (example_key 12 50002 PacketRoleType_Client))
   \<and> GetStatisticsItem example_table (example_key 12 50002 PacketRoleType_Client)
       = (\<lparr>mHashMap = [(example_key 11 50001 PacketRoleType_Client, example_tcp),
                        (example_key 12 50002 PacketRoleType_Client, sNewTcp)]\<rparr>, 1)
   \<and> GetStatisticsItem (Clear example_table) (example_key 11 50001 PacketRoleType_Client)
       = (\<lparr>mHashMap = [(example_key 11 50001 PacketRoleType_Client, sNewTcp)]\<rparr>, 0)
   \<and> sNewTcp \<noteq> example_tcp"
  using GetStatisticsItem_get_or_create [of example_table "example_key 11 50002 PacketRoleType_Client"]
    GetStatisticsItem_get_or_create [of example_table "example_key 12 50002 PacketRoleType_Client"]
    GetStatisticsItem_get_or_create [of example_table "example_key 11 50001 PacketRoleType_Client"]
  by (simp add: example_table_def example_key_def NetStatisticsKeyEqual_def sNewTcp_def
      example_tcp_def)

section \<open>Properties of the record formatter\<close>

text \<open>
  C9. The object written under \<open>remote_info\<close> has \<open>remote_port\<close> equal to the text 0 for a
  key whose role is Server, whatever its destination port, and equal to the destination port
  in decimal for any other key; \<open>remote_info\<close> is the first field that \<open>StatisticsKeyToPB\<close> adds
  to the log.
\<close>

theorem StatisticsKeyToPB_remote_port:
  "remote_info_root pf env key ''remote_port''
     = Some (if RoleType key = PacketRoleType_Server then ''0''
             else to_string (unat (NetStatisticsKey.DstPort key)))
   \<and> StatisticsKeyToPB pf env key log withLocalPort ! length log
     = (''remote_info'', FastWriter_write env (remote_info_root pf env key))
   \<and> length log < length (StatisticsKeyToPB pf env key log withLocalPort)"
  by (simp add: remote_info_root_def StatisticsKeyToPB_def Let_def nth_append)

text \<open>The example key with role Server, Client and Unknown; its destination port is 8080.\<close>

theorem StatisticsKeyToPB_remote_port_witness:
  "remote_info_root libc example_env (example_key 11 50001 PacketRoleType_Server) ''remote_port''
     = Some ''0''
   \<and> remote_info_root libc example_env (example_key 11 50001 PacketRoleType_Client) ''remote_port''
     = Some ''8080''
   \<and> remote_info_root libc example_env (example_key 11 50001 PacketRoleType_Unknown) ''remote_port''
     = Some ''8080''
   \<and> fst (StatisticsKeyToPB libc example_env (example_key 11 50001 PacketRoleType_Server) [] True ! 0)
     = ''remote_info''"
  using StatisticsKeyToPB_remote_port [of libc example_env "example_key 11 50001 PacketRoleType_Server" "[]" True]
    StatisticsKeyToPB_remote_port [of libc example_env "example_key 11 50001 PacketRoleType_Client" "[]" True]
    StatisticsKeyToPB_remote_port [of libc example_env "example_key 11 50001 PacketRoleType_Unknown" "[]" True]
  by (simp add: example_key_def to_string.simps)

section \<open>Properties of memory\<close>

lemma length_le_bytes [simp]: "length (le_bytes n w) = n"
  by (induction n arbitrary: w) simp_all

lemma word_of_le_le_bytes:
  "(word_of_le (le_bytes n w) :: 'a::len word) = take_bit (8 * n) (w :: 'a word)"
proof (induction n arbitrary: w)
  case 0
  show ?case by simp
next
  case (Suc n)
  have "(ucast (ucast w :: byte) :: 'a word) OR push_bit 8 (take_bit (8 * n) (drop_bit 8 w))
          = take_bit (8 * Suc n) w"
    by (rule bit_eqI) (auto simp: bit_simps)
  with Suc show ?case by simp
qed

lemma word_of_le_le_bytes_64: "word_of_le (le_bytes 8 (w :: 64 word)) = w"
  by (simp add: word_of_le_le_bytes take_bit_word_eq_self)

lemma word_of_le_le_bytes_32: "word_of_le (le_bytes 4 (w :: 32 word)) = w"
  by (simp add: word_of_le_le_bytes take_bit_word_eq_self)

lemma unat_offset_diff:
  assumes "x < 2 ^ 64" and "y < 2 ^ 64"
  shows "unat ((b + of_nat y) - (b + of_nat x) :: 64 word)
           = (if x \<le> y then y - x else 2 ^ 64 - (x - y))"
proof (cases "x \<le> y")
  case True
  then have "(b + of_nat y) - (b + of_nat x) = (of_nat (y - x) :: 64 word)"
    by simp
  moreover have "unat (of_nat (y - x) :: 64 word) = y - x"
    using assms by (simp add: unat_of_nat)
  ultimately show ?thesis using True by simp
next
  case False
  have zero: "(of_nat (2 ^ 64 :: nat) :: 64 word) = 0"
    by simp
  from False assms have le: "x - y \<le> 2 ^ 64"
    by simp
  have "(of_nat (2 ^ 64 - (x - y)) :: 64 word) = of_nat (2 ^ 64) - of_nat (x - y)"
    using le by (rule of_nat_diff)
  also have "\<dots> = (b + of_nat y) - (b + of_nat x)"
    using False by (simp only: zero) simp
  finally have "(b + of_nat y) - (b + of_nat x) = (of_nat (2 ^ 64 - (x - y)) :: 64 word)"
    by simp
  moreover have "unat (of_nat (2 ^ 64 - (x - y)) :: 64 word) = 2 ^ 64 - (x - y)"
    using False by (simp add: unat_of_nat)
  ultimately show ?thesis using False by simp
qed

lemma store_bytes_at_offset:
  assumes "x + length bs \<le> 2 ^ 64" and "y < 2 ^ 64"
  shows "store_bytes h (b + of_nat x) bs (b + of_nat y)
           = (if x \<le> y \<and> y < x + length bs then bs ! (y - x) else h (b + of_nat y))"
proof -
  from assms have x: "x < 2 ^ 64 \<or> (x = 2 ^ 64 \<and> bs = [])"
    by (cases bs) auto
  show ?thesis
  proof (cases "bs = []")
    case True
    then show ?thesis by (auto simp: store_bytes_def)
  next
    case False
    with x have "x < 2 ^ 64" by simp
    from unat_offset_diff [OF this assms(2), of b] assms(1) show ?thesis
      by (auto simp: store_bytes_def)
  qed
qed

lemma load_bytes_store_bytes:
  assumes "x + length bs \<le> 2 ^ 64" and "y + n \<le> 2 ^ 64"
  shows "load_bytes (store_bytes h (b + of_nat x) bs) (b + of_nat y) n
           = map (\<lambda>i. if x \<le> y + i \<and> y + i < x + length bs then bs ! (y + i - x)
                       else h (b + of_nat (y + i))) [0..<n]"
proof -
  have "store_bytes h (b + of_nat x) bs (b + of_nat y + of_nat i)
          = (if x \<le> y + i \<and> y + i < x + length bs then bs ! (y + i - x)
             else h (b + of_nat (y + i)))" if "i < n" for i
  proof -
    from that assms(2) have "y + i < 2 ^ 64" by simp
    from store_bytes_at_offset [OF assms(1) this, of h b] show ?thesis
      by (simp add: add.assoc)
  qed
  then show ?thesis by (simp add: load_bytes_def)
qed

lemma load_bytes_store_bytes_apart:
  assumes "x + length bs \<le> 2 ^ 64" and "y + n \<le> 2 ^ 64" and "apart x (length bs) y n"
  shows "load_bytes (store_bytes h (b + of_nat x) bs) (b + of_nat y) n
           = load_bytes h (b + of_nat y) n"
proof -
  have "load_bytes (store_bytes h (b + of_nat x) bs) (b + of_nat y) n
          = map (\<lambda>i. h (b + of_nat (y + i))) [0..<n]"
    using assms(3) by (auto simp: load_bytes_store_bytes [OF assms(1,2)] apart_def)
  then show ?thesis by (simp add: load_bytes_def add.assoc)
qed

lemma load_bytes_store_bytes_inside:
  assumes "x + length bs \<le> 2 ^ 64" and "x \<le> y" and "y + n \<le> x + length bs"
  shows "load_bytes (store_bytes h (b + of_nat x) bs) (b + of_nat y) n
           = take n (drop (y - x) bs)"
proof -
  from assms have "y + n \<le> 2 ^ 64" by simp
  from load_bytes_store_bytes [OF assms(1) this, of h b] assms(2,3) show ?thesis
    by (auto simp: list_eq_iff_nth_eq)
qed

lemma load_bytes_offset:
  "k + n \<le> m \<Longrightarrow> load_bytes h (p + of_nat k) n = take n (drop k (load_bytes h p m))"
  by (auto simp: load_bytes_def list_eq_iff_nth_eq add.assoc)

lemma length_load_bytes [simp]: "length (load_bytes h p n) = n"
  by (simp add: load_bytes_def)

lemma load_word_offset:
  "k + n \<le> m \<Longrightarrow> load_bytes h p m = load_bytes h' p' m \<Longrightarrow>
     (load_word h (p + of_nat k) n :: 'a::len word) = load_word h' (p' + of_nat k) n"
  by (simp add: load_word_def load_bytes_offset [of k n m])

lemma load_bytes_offset_cong:
  "k + n \<le> m \<Longrightarrow> load_bytes h p m = load_bytes h' p' m \<Longrightarrow>
     load_bytes h (p + of_nat k) n = load_bytes h' (p' + of_nat k) n"
  by (simp add: load_bytes_offset [of k n m])

lemma read_PacketEventHeader_cong:
  assumes wf: "wf_layout L"
    and eq: "load_bytes h p (sizeof_PacketEventHeader L) = load_bytes h' p' (sizeof_PacketEventHeader L)"
  shows "read_PacketEventHeader L h p = read_PacketEventHeader L h' p'"
proof -
  note w = load_word_offset [OF _ eq]
  note b = load_bytes_offset_cong [OF _ eq]
  from wf show ?thesis
    unfolding read_PacketEventHeader_def wf_layout_def
    by (simp add: w b)
qed

lemma BufferToPacketEvent_keeps_header:
  assumes wf: "wf_layout L"
  shows "load_bytes (fst (BufferToPacketEvent L h buffer buffer_len)) buffer
           (sizeof_PacketEventHeader L) = load_bytes h buffer (sizeof_PacketEventHeader L)"
proof -
  let ?H = "sizeof_PacketEventHeader L"
  let ?x = "?H + offsetof_Buffer L"
  let ?bs = "le_bytes 8 (buffer + of_nat ?H + of_nat (sizeof_PacketEventData L))"
  from wf have bound: "?x + length ?bs \<le> 2 ^ 64" "0 + ?H \<le> (2 ^ 64 :: nat)"
    and ap: "apart ?x (length ?bs) 0 ?H"
    by (simp_all add: wf_layout_def apart_def)
  from load_bytes_store_bytes_apart [OF bound ap, of h buffer]
  have "load_bytes (store_bytes h (buffer + of_nat ?H + of_nat (offsetof_Buffer L)) ?bs) buffer ?H
          = load_bytes h buffer ?H"
    by (simp add: add.assoc)
  then show ?thesis
    by (simp add: BufferToPacketEvent_def Let_def)
qed

lemma read_PacketEventData_cong:
  assumes wf: "wf_layout L"
    and eq: "load_bytes h p (sizeof_PacketEventData L) = load_bytes h' p' (sizeof_PacketEventData L)"
  shows "read_PacketEventData L h p = read_PacketEventData L h' p'"
proof -
  note w = load_word_offset [OF _ eq]
  from wf show ?thesis
    unfolding read_PacketEventData_def wf_layout_def
    by (simp add: w)
qed

lemma read_PacketEventData_store_Buffer:
  assumes wf: "wf_layout L" and X: "X + sizeof_PacketEventData L \<le> 2 ^ 64"
  shows "read_PacketEventData L
           (store_bytes h (b + of_nat (X + offsetof_Buffer L)) (le_bytes 8 ptr)) (b + of_nat X)
         = (read_PacketEventData L h (b + of_nat X))\<lparr>Buffer := ptr\<rparr>"
proof -
  let ?x = "X + offsetof_Buffer L"
  let ?h' = "store_bytes h (b + of_nat ?x) (le_bytes 8 ptr)"
  from wf X have x: "?x + length (le_bytes 8 ptr) \<le> 2 ^ 64"
    by (simp add: wf_layout_def)
  have other: "(load_word ?h' (b + of_nat X + of_nat off) 4 :: 32 word)
                 = load_word h (b + of_nat X + of_nat off) 4"
    if "off + 4 \<le> sizeof_PacketEventData L" and "apart off 4 (offsetof_Buffer L) 8" for off
  proof -
    from that X have "X + off + 4 \<le> 2 ^ 64"
      and "apart ?x (length (le_bytes 8 ptr)) (X + off) 4"
      by (auto simp: apart_def)
    from load_bytes_store_bytes_apart [OF x this, of h b] show ?thesis
      by (simp add: load_word_def add.assoc)
  qed
  have slot: "load_word ?h' (b + of_nat X + of_nat (offsetof_Buffer L)) 8 = ptr"
  proof -
    have "load_bytes ?h' (b + of_nat ?x) 8 = take 8 (drop (?x - ?x) (le_bytes 8 ptr))"
      using x by (intro load_bytes_store_bytes_inside) simp_all
    then show ?thesis
      by (simp add: load_word_def add.assoc word_of_le_le_bytes_64)
  qed
  from wf have
    "(load_word ?h' (b + of_nat X + of_nat (offsetof_PktType L)) 4 :: 32 word)
       = load_word h (b + of_nat X + of_nat (offsetof_PktType L)) 4"
    "(load_word ?h' (b + of_nat X + of_nat (offsetof_PtlType L)) 4 :: 32 word)
       = load_word h (b + of_nat X + of_nat (offsetof_PtlType L)) 4"
    "(load_word ?h' (b + of_nat X + of_nat (offsetof_MsgType L)) 4 :: 32 word)
       = load_word h (b + of_nat X + of_nat (offsetof_MsgType L)) 4"
    "(load_word ?h' (b + of_nat X + of_nat (offsetof_RealLen L)) 4 :: 32 word)
       = load_word h (b + of_nat X + of_nat (offsetof_RealLen L)) 4"
    "(load_word ?h' (b + of_nat X + of_nat (offsetof_BufferLen L)) 4 :: 32 word)
       = load_word h (b + of_nat X + of_nat (offsetof_BufferLen L)) 4"
    by (simp_all only: wf_layout_def other)
  with slot show ?thesis
    by (simp only: read_PacketEventData_def PacketEventData.simps)
qed

lemma uint_scast_32_64: "uint (scast (w :: 32 word) :: 64 word) = sint w mod 2 ^ 64"
  unfolding scast_eq uint_word_of_int by simp

lemma uint_sint_32: "uint (w :: 32 word) = sint w mod 2 ^ 32"
proof -
  have "uint (word_of_int (sint w) :: 32 word) = sint w mod 2 ^ 32"
    by (simp only: uint_word_of_int) simp
  then show ?thesis by simp
qed

lemma sint_32_range: "- (2 ^ 31) \<le> sint (w :: 32 word) \<and> sint w < 2 ^ 31"
  using sint_ge [of w] sint_lt [of w] by simp

lemma unat_scast_of_nonneg_sint: "0 \<le> sint (w :: 32 word) \<Longrightarrow> unat (scast w :: 64 word) = unat w"
proof -
  assume "0 \<le> sint w"
  with sint_32_range [of w] have "sint w mod 2 ^ 64 = sint w" "sint w mod 2 ^ 32 = sint w"
    by simp_all
  with uint_scast_32_64 [of w] uint_sint_32 [of w] have "uint (scast w :: 64 word) = uint w"
    by simp
  then show ?thesis by (simp only: unat_eq_nat_uint)
qed

lemma unat_of_nonneg_sint: "0 \<le> sint (w :: 32 word) \<Longrightarrow> unat w < 2 ^ 31"
proof -
  assume "0 \<le> sint w"
  with sint_32_range [of w] have "sint w mod 2 ^ 32 = sint w" by simp
  with uint_sint_32 [of w] sint_32_range [of w] have "uint w < 2 ^ 31" by simp
  then show ?thesis by (simp add: unat_eq_nat_uint del: nat_uint_eq)
qed

lemma unat_of_negative_sint: "sint (w :: 32 word) < 0 \<Longrightarrow> 2 ^ 31 \<le> unat w \<and> 2 ^ 63 \<le> unat (scast w :: 64 word)"
proof -
  assume neg: "sint w < 0"
  have "sint w mod 2 ^ 32 = (sint w + 2 ^ 32) mod 2 ^ 32"
    by simp
  also have "\<dots> = sint w + 2 ^ 32"
    using neg sint_32_range [of w] by (intro mod_pos_pos_trivial) simp_all
  finally have m32: "sint w mod 2 ^ 32 = sint w + 2 ^ 32" .
  have "sint w mod 2 ^ 64 = (sint w + 2 ^ 64) mod 2 ^ 64"
    by simp
  also have "\<dots> = sint w + 2 ^ 64"
    using neg sint_32_range [of w] by (intro mod_pos_pos_trivial) simp_all
  finally have m64: "sint w mod 2 ^ 64 = sint w + 2 ^ 64" .
  from m32 m64
  have "2 ^ 31 \<le> uint w" "2 ^ 63 \<le> uint (scast w :: 64 word)"
    using uint_scast_32_64 [of w] uint_sint_32 [of w] sint_32_range [of w] by simp_all
  then show ?thesis by (simp add: unat_eq_nat_uint le_nat_iff del: nat_uint_eq)
qed

lemma unat_scast_eq_small:
  assumes "n < 2 ^ 31"
  shows "unat (scast (w :: 32 word) :: 64 word) = n \<longleftrightarrow> unat w = n"
proof (cases "0 \<le> sint w")
  case True
  then show ?thesis by (simp add: unat_scast_of_nonneg_sint)
next
  case False
  with unat_of_negative_sint [of w] assms show ?thesis by simp
qed

lemma BufferToPacketEvent_cases:
  assumes wf: "wf_layout L"
  shows "BufferToPacketEvent L h buffer buffer_len =
           (if unat buffer_len < sizeof_PacketEventHeader L then (h, NULL, buffer_len)
            else if unat buffer_len = sizeof_PacketEventHeader L then (h, buffer, buffer_len)
            else (store_bytes h
                    (buffer + of_nat (sizeof_PacketEventHeader L + offsetof_Buffer L))
                    (le_bytes 8 (buffer + of_nat (sizeof_PacketEventHeader L)
                                  + of_nat (sizeof_PacketEventData L))),
                  buffer, buffer_len))"
proof -
  from wf have "sizeof_PacketEventHeader L < 2 ^ 31"
    by (simp add: wf_layout_def)
  from unat_scast_eq_small [OF this, of buffer_len] show ?thesis
    by (simp add: BufferToPacketEvent_def Let_def add.assoc)
qed

lemma BufferToPacketEvent_data_section:
  assumes "wf_layout L"
  shows "(case BufferToPacketEvent L h buffer buffer_len of
            (h', event, len) \<Rightarrow>
              (unat buffer_len \<le> sizeof_PacketEventHeader L \<longrightarrow> h' = h)
              \<and> (sizeof_PacketEventHeader L < unat buffer_len \<longrightarrow>
                   event = buffer
                   \<and> read_PacketEventData L h' (event + of_nat (sizeof_PacketEventHeader L))
                       = (read_PacketEventData L h (buffer + of_nat (sizeof_PacketEventHeader L)))
                           \<lparr>Buffer := event + of_nat (sizeof_PacketEventHeader L)
                                        + of_nat (sizeof_PacketEventData L)\<rparr>))"
proof -
  from assms have "sizeof_PacketEventHeader L + sizeof_PacketEventData L \<le> 2 ^ 64"
    by (simp add: wf_layout_def)
  from read_PacketEventData_store_Buffer [OF assms this, of h buffer]
  show ?thesis
    by (simp add: BufferToPacketEvent_cases [OF assms])
qed

lemma PacketEventToBuffer_data:
  assumes wf: "wf_layout L"
    and len: "sizeof_PacketEventHeader L \<le> unat len"
    and ty: "EventType (read_PacketEventHeader L h event) = PacketEventType_Data L"
    and nonneg: "0 \<le> sint (BufferLen (read_PacketEventData L h
                                (event + of_nat (sizeof_PacketEventHeader L))))"
  shows "PacketEventToBuffer L h event len =
           Inr (le_bytes 4 (of_nat (sizeof_PacketEventHeader L + sizeof_PacketEventData L
                   + unat (BufferLen (read_PacketEventData L h
                                (event + of_nat (sizeof_PacketEventHeader L))))) :: 32 word)
                @ load_bytes h event (sizeof_PacketEventHeader L + sizeof_PacketEventData L)
                @ load_bytes h
                    (Buffer (read_PacketEventData L h (event + of_nat (sizeof_PacketEventHeader L))))
                    (unat (BufferLen (read_PacketEventData L h
                                (event + of_nat (sizeof_PacketEventHeader L))))))"
proof -
  let ?d = "read_PacketEventData L h (event + of_nat (sizeof_PacketEventHeader L))"
  let ?n = "unat (BufferLen ?d)"
  let ?HD = "sizeof_PacketEventHeader L + sizeof_PacketEventData L"
  from nonneg have sc: "unat (scast (BufferLen ?d) :: 64 word) = ?n"
    by (rule unat_scast_of_nonneg_sint)
  from nonneg have n: "?n < 2 ^ 31"
    by (rule unat_of_nonneg_sint)
  from wf have HD: "?HD < 2 ^ 31"
    by (simp add: wf_layout_def)
  from HD n have "4 + ?HD + ?n < 2 ^ 63"
    by simp
  then have size: "(4 + sizeof_PacketEventHeader L + sizeof_PacketEventData L
                     + unat (scast (BufferLen ?d) :: 64 word)) mod 2 ^ 64 = 4 + ?HD + ?n"
    by (simp add: sc)
  from wf have "0 < sizeof_PacketEventData L"
    by (simp add: wf_layout_def)
  with len ty nonneg \<open>4 + ?HD + ?n < 2 ^ 63\<close> show ?thesis
    unfolding PacketEventToBuffer_def Let_def size
    by (simp add: add.assoc)
qed

lemma take_load_bytes: "k \<le> m \<Longrightarrow> take k (load_bytes h p m) = load_bytes h p k"
  by (simp add: load_bytes_def take_map)

lemma sint_eq_length:
  assumes "sint (w :: 32 word) = int n"
  shows "0 \<le> sint w" and "unat w = n"
proof -
  from assms show nonneg: "0 \<le> sint w" by simp
  from nonneg sint_32_range [of w] have "sint w mod 2 ^ 32 = sint w" by simp
  with uint_sint_32 [of w] assms have "uint w = int n" by simp
  then show "unat w = n" by (simp add: unat_eq_nat_uint del: nat_uint_eq)
qed

lemma le_bytes_take_bit:
  "8 * n \<le> m \<Longrightarrow> le_bytes n (take_bit m w) = le_bytes n (w :: 'a::len word)"
proof (induction n arbitrary: m w)
  case 0
  show ?case by simp
next
  case (Suc n)
  from Suc.prems have m: "8 \<le> m" "8 * n \<le> m - 8" by simp_all
  have low: "(ucast (take_bit m w) :: byte) = ucast w"
    using m(1) by (intro bit_eqI) (auto simp: bit_simps)
  have "drop_bit 8 (take_bit m w) = take_bit (m - 8) (drop_bit 8 w)"
    by (simp add: drop_bit_take_bit)
  with Suc.IH [OF m(2)] low show ?case by simp
qed

lemma le_bytes_word_of_le:
  "8 * length bs \<le> LENGTH('a) \<Longrightarrow> le_bytes (length bs) (word_of_le bs :: 'a::len word) = bs"
proof (induction bs)
  case Nil
  show ?case by simp
next
  case (Cons b bs)
  let ?W = "word_of_le bs :: 'a word"
  from Cons.prems have len: "8 \<le> LENGTH('a)" "8 * length bs \<le> LENGTH('a) - 8"
    by simp_all
  have low: "(ucast (ucast b OR push_bit 8 ?W :: 'a word) :: byte) = b"
    using len(1) by (intro bit_eqI) (auto simp: bit_simps)
  have high: "drop_bit 8 (ucast b OR push_bit 8 ?W :: 'a word) = take_bit (LENGTH('a) - 8) ?W"
    using len(1) by (intro bit_eqI) (auto simp: bit_simps dest: bit_imp_le_length)
  from Cons.prems have "8 * length bs \<le> LENGTH('a)" by simp
  with Cons.IH le_bytes_take_bit [OF len(2), of ?W] low high show ?case by simp
qed

lemma le_bytes_word_of_le_n:
  "length bs = n \<Longrightarrow> 8 * n \<le> LENGTH('a) \<Longrightarrow> le_bytes n (word_of_le bs :: 'a::len word) = bs"
  using le_bytes_word_of_le [of bs, where 'a = 'a] by simp

section \<open>The examples, evaluated\<close>

lemma replicate_numeral_eval: "replicate (numeral k) x = x # replicate (pred_numeral k) x"
  by (simp add: numeral_eq_Suc)

lemmas libc_eval = upt_conv_Cons replicate_numeral_eval libc_def inet_ntop6_def inet_ntop4_def
  inet_pton4_def inet_pton6_def best_run_def zero_run_at_def to_hex.simps to_string.simps Let_def
  octet_value_def digit_value_def group_bytes_def colon_parts_def

lemmas memory_eval = upt_conv_Cons store_bytes_def load_bytes_def load_word_def
  example_memory_def example_header_bytes_def example_data_bytes_def

lemma le_bytes_numeral:
  "le_bytes (numeral k) w = ucast w # le_bytes (pred_numeral k) (drop_bit 8 w)"
  by (simp add: numeral_eq_Suc)

lemmas XXH32_eval = XXH32_def XXH32_stripes.simps XXH32_finalize.simps XXH32_avalanche_def
  XXH32_round_def XXH_rotl32_def PRIME32_1_def PRIME32_2_def PRIME32_3_def PRIME32_4_def
  PRIME32_5_def Let_def

lemma XXH32_examples:
  "XXH32 [] 0 = 0x02CC5D05"
  "XXH32 [0, 0, 0, 0, 10, 0, 0, 2, 0, 0, 0, 0, 0, 0, 0, 0, 0, 0, 0, 0] 0 = 0x21bf5596"
  "XXH32 [0x90, 0x1F] 0x21bf5596 = 0x0af86e99"
  "XXH32 [0x92, 0x10, 0, 0] 0x0af86e99 = 0x50e59f70"
  "XXH32 [0, 0, 0, 0, 10, 0, 0, 2, 1, 2, 3, 4, 5, 6, 7, 8, 9, 10, 11, 12] 0 = 0x289a6d53"
  "XXH32 [0x90, 0x1F] 0x289a6d53 = 0x3e77b68a"
  "XXH32 [0x92, 0x10, 0, 0] 0x3e77b68a = 0xf374a7f6"
  by (simp_all add: XXH32_eval)

lemma example_key_bytes:
  "le_bytes 2 (8080 :: 16 word) = [0x90, 0x1F]"
  "le_bytes 4 (4242 :: 32 word) = [0x92, 0x10, 0, 0]"
  by (simp_all add: le_bytes_numeral)

lemma example_parsed_address:
  "SockAddressFromString libc stale_address ''10.0.0.2''
     = \<lparr>Type = SockAddressType_IPV4,
        Addr = [10, 0, 0, 2, 1, 2, 3, 4, 5, 6, 7, 8, 9, 10, 11, 12]\<rparr>"
  by (simp add: SockAddressFromString_def stale_address_def libc_eval)

lemma example_merged_hashes:
  "MergedNetStatisticsKeyHash XXH32 example_bytes_of_Type (example_key 11 50001 PacketRoleType_Client)
     = 0x50e59f70"
  "MergedNetStatisticsKeyHash XXH32 example_bytes_of_Type example_key_other_socket = 0xf374a7f6"
  by (simp_all add: MergedNetStatisticsKeyHash_def bytes_of_SockAddress_def example_key_def
      example_key_other_socket_def example_parsed_address example_bytes_of_Type_def
      example_key_bytes XXH32_examples)

lemma example_merged_equal:
  "MergedNetStatisticsKeyEqual (example_key 11 50001 PacketRoleType_Client) example_key_other_socket"
  by (simp add: MergedNetStatisticsKeyEqual_def SockAddress_eq_def example_key_def
      example_key_other_socket_def example_parsed_address)

lemma example_layout_sizes:
  "sizeof_PacketEventHeader example_layout = 72"
  "sizeof_PacketEventData example_layout = 32"
  "PacketEventType_Data example_layout = 1"
  by (simp_all add: example_layout_def)

lemma wf_example_layout: "wf_layout example_layout"
  by (simp add: wf_layout_def example_layout_def apart_def)

lemma example_event_type:
  "EventType (read_PacketEventHeader example_layout (example_memory t) 0x1000) = ucast t"
  by (simp add: read_PacketEventHeader_def example_layout_def memory_eval)

lemma example_data:
  "read_PacketEventData example_layout (example_memory t) (0x1000 + 72)
     = \<lparr>PktType = 1, PtlType = 2, MsgType = 1, RealLen = 3, BufferLen = 3, Buffer = 0x2000\<rparr>"
  by (simp add: read_PacketEventData_def example_layout_def memory_eval)

lemma example_payload: "load_bytes (example_memory t) 0x2000 3 = [0x47, 0x45, 0x54]"
  by (simp add: memory_eval)

section \<open>Properties of the event framing codec\<close>

text \<open>
  C4. For every buffer (a pointer that is not null) \<open>BufferToPacketEvent\<close> leaves \<open>event\<close>
  null exactly when the length, read as unsigned, is smaller than the size of the header.
  When the length is at least the size of the header, \<open>event\<close> is the buffer itself, so the
  header is read at offset 0 of the buffer, and the header bytes, hence every header field,
  are those the buffer held before the call.
\<close>

theorem BufferToPacketEvent_header:
  assumes "wf_layout L" and "buffer \<noteq> NULL"
  shows "(case BufferToPacketEvent L h buffer buffer_len of
            (h', event, len) \<Rightarrow>
              len = buffer_len
              \<and> (event = NULL \<longleftrightarrow> unat buffer_len < sizeof_PacketEventHeader L)
              \<and> (sizeof_PacketEventHeader L \<le> unat buffer_len \<longrightarrow>
                   event = buffer
                   \<and> load_bytes h' event (sizeof_PacketEventHeader L)
                       = load_bytes h buffer (sizeof_PacketEventHeader L)
                   \<and> read_PacketEventHeader L h' event = read_PacketEventHeader L h buffer))"
proof -
  obtain h' event len where r: "BufferToPacketEvent L h buffer buffer_len = (h', event, len)"
    by (cases "BufferToPacketEvent L h buffer buffer_len") auto
  from r have len: "len = buffer_len"
    by (auto simp: BufferToPacketEvent_def Let_def split: if_splits)
  from r have ev: "event = (if unat buffer_len < sizeof_PacketEventHeader L then NULL else buffer)"
    by (auto simp: BufferToPacketEvent_def Let_def split: if_splits)
  from BufferToPacketEvent_keeps_header [OF assms(1), of h buffer buffer_len] r
  have bytes: "load_bytes h' buffer (sizeof_PacketEventHeader L)
                 = load_bytes h buffer (sizeof_PacketEventHeader L)"
    by simp
  from read_PacketEventHeader_cong [OF assms(1) bytes]
  have "read_PacketEventHeader L h' buffer = read_PacketEventHeader L h buffer" .
  with r len ev bytes assms(2) show ?thesis by auto
qed

text \<open>
  The example event decoded with 107 bytes, and with 71 bytes, one less than the header.
\<close>

theorem BufferToPacketEvent_header_witness:
  "wf_layout example_layout \<and> (0x1000 :: addr) \<noteq> NULL
   \<and> sizeof_PacketEventHeader example_layout \<le> unat (107 :: 32 word)
   \<and> (case BufferToPacketEvent example_layout (example_memory 1) 0x1000 107 of
         (h', event, len) \<Rightarrow>
           len = 107 \<and> event = 0x1000
           \<and> read_PacketEventHeader example_layout h' event
               = read_PacketEventHeader example_layout (example_memory 1) 0x1000)
   \<and> unat (71 :: 32 word) < sizeof_PacketEventHeader example_layout
   \<and> (case BufferToPacketEvent example_layout (example_memory 1) 0x1000 71 of
         (h', event, len) \<Rightarrow> len = 71 \<and> event = NULL)"
  using BufferToPacketEvent_header [where L = example_layout and buffer = "0x1000"
      and h = "example_memory 1" and buffer_len = 107]
    BufferToPacketEvent_header [where L = example_layout and buffer = "0x1000"
      and h = "example_memory 1" and buffer_len = 71]
    wf_example_layout
  by (simp add: NULL_def example_layout_sizes split: prod.splits)

text \<open>
  C2 as the specification words it: a buffer whose header carries an event type other than
  data would decode to a header-only event, with no payload reference set. The example event
  with event type 2 and 104 bytes has payload reference 0x2000 before the call and 0x1068
  after it: memory was written.
\<close>

theorem BufferToPacketEvent_ignores_event_type:
  "EventType (read_PacketEventHeader example_layout (example_memory 2) 0x1000)
     \<noteq> PacketEventType_Data example_layout
   \<and> Buffer (read_PacketEventData example_layout (example_memory 2) (0x1000 + 72)) = 0x2000
   \<and> fst (snd (BufferToPacketEvent example_layout (example_memory 2) 0x1000 104)) = 0x1000
   \<and> Buffer (read_PacketEventData example_layout
         (fst (BufferToPacketEvent example_layout (example_memory 2) 0x1000 104)) (0x1000 + 72))
       = 0x1068
   \<and> fst (BufferToPacketEvent example_layout (example_memory 2) 0x1000 104) \<noteq> example_memory 2"
proof -
  have ty: "EventType (read_PacketEventHeader example_layout (example_memory 2) 0x1000)
              \<noteq> PacketEventType_Data example_layout"
    by (simp add: example_event_type example_layout_sizes)
  have before: "Buffer (read_PacketEventData example_layout (example_memory 2) (0x1000 + 72)) = 0x2000"
    by (simp only: example_data) simp
  obtain h' event len
    where r: "BufferToPacketEvent example_layout (example_memory 2) 0x1000 104 = (h', event, len)"
    by (cases "BufferToPacketEvent example_layout (example_memory 2) 0x1000 104") auto
  from BufferToPacketEvent_data_section [OF wf_example_layout,
      where h = "example_memory 2" and buffer = "0x1000" and buffer_len = 104] r
  have ev: "event = 0x1000"
    and after: "read_PacketEventData example_layout h' (0x1000 + 72)
                  = (read_PacketEventData example_layout (example_memory 2) (0x1000 + 72))
                      \<lparr>Buffer := 0x1068\<rparr>"
    by (auto simp: example_layout_sizes)
  from after have set: "Buffer (read_PacketEventData example_layout h' (0x1000 + 72)) = 0x1068"
    by simp
  with before have "h' \<noteq> example_memory 2"
    by auto
  with ty before ev set r show ?thesis
    by simp
qed

text \<open>
  C2, amended. \<open>BufferToPacketEvent\<close> does not look at the event type. When the length,
  read as unsigned, is at most the size of the header it writes nothing; when the length is
  greater, whatever the event type in the header, it sets the payload reference of the data
  section that follows the header to the address right after the fixed fields of that
  section, and leaves the other fields of the section as they were.
\<close>

theorem BufferToPacketEvent_payload_reference:
  assumes "wf_layout L"
  shows "(case BufferToPacketEvent L h buffer buffer_len of
            (h', event, len) \<Rightarrow>
              (unat buffer_len \<le> sizeof_PacketEventHeader L \<longrightarrow> h' = h)
              \<and> (sizeof_PacketEventHeader L < unat buffer_len \<longrightarrow>
                   event = buffer
                   \<and> read_PacketEventData L h' (event + of_nat (sizeof_PacketEventHeader L))
                       = (read_PacketEventData L h (buffer + of_nat (sizeof_PacketEventHeader L)))
                           \<lparr>Buffer := event + of_nat (sizeof_PacketEventHeader L)
                                        + of_nat (sizeof_PacketEventData L)\<rparr>))"
  using assms by (rule BufferToPacketEvent_data_section)

text \<open>The example event with event type 2, decoded with 104 bytes and with 72 bytes.\<close>

theorem BufferToPacketEvent_payload_reference_witness:
  "wf_layout example_layout
   \<and> sizeof_PacketEventHeader example_layout < unat (104 :: 32 word)
   \<and> (case BufferToPacketEvent example_layout (example_memory 2) 0x1000 104 of
         (h', event, len) \<Rightarrow>
           event = 0x1000
           \<and> read_PacketEventData example_layout h' (event + 72)
               = \<lparr>PktType = 1, PtlType = 2, MsgType = 1, RealLen = 3, BufferLen = 3,
                  Buffer = 0x1068\<rparr>)
   \<and> unat (72 :: 32 word) \<le> sizeof_PacketEventHeader example_layout
   \<and> (case BufferToPacketEvent example_layout (example_memory 2) 0x1000 72 of
         (h', event, len) \<Rightarrow> h' = example_memory 2)"
  using BufferToPacketEvent_payload_reference [OF wf_example_layout,
      where h = "example_memory 2" and buffer = "0x1000" and buffer_len = 104]
    BufferToPacketEvent_payload_reference [OF wf_example_layout,
      where h = "example_memory 2" and buffer = "0x1000" and buffer_len = 72]
    wf_example_layout example_data [of 2]
  by (simp add: example_layout_sizes split: prod.splits)

text \<open>
  C3. Take a data event \<open>e\<close> with at least a header's length, whose declared buffer length is
  the length of its payload \<open>p\<close>. \<open>PacketEventToBuffer\<close> produces a frame whose first four bytes
  hold the length of the rest; with the frame stored anywhere in memory, decoding what
  follows the four bytes gives an event with the header fields of \<open>e\<close>, the fixed fields of
  the data section of \<open>e\<close> (the payload reference now points into the frame), and the
  payload \<open>p\<close>, byte for byte.
\<close>

theorem PacketEventToBuffer_BufferToPacketEvent:
  assumes wf: "wf_layout L"
    and len: "sizeof_PacketEventHeader L \<le> unat len"
    and ty: "EventType (read_PacketEventHeader L h e) = PacketEventType_Data L"
    and d: "d = read_PacketEventData L h (e + of_nat (sizeof_PacketEventHeader L))"
    and declared: "sint (BufferLen d) = int (length p)"
    and payload: "load_bytes h (Buffer d) (length p) = p"
  shows "\<exists>frame. PacketEventToBuffer L h e len = Inr frame
           \<and> (word_of_le (take 4 frame) :: 32 word) = of_nat (length frame - 4)
           \<and> (case BufferToPacketEvent L (store_bytes h0 q frame) (q + 4)
                       (of_nat (length frame - 4)) of
                 (h', event, len') \<Rightarrow>
                   event = q + 4
                   \<and> read_PacketEventHeader L h' event = read_PacketEventHeader L h e
                   \<and> read_PacketEventData L h' (event + of_nat (sizeof_PacketEventHeader L))
                       = d\<lparr>Buffer := event + of_nat (sizeof_PacketEventHeader L)
                                      + of_nat (sizeof_PacketEventData L)\<rparr>
                   \<and> load_bytes h'
                         (Buffer (read_PacketEventData L h'
                                    (event + of_nat (sizeof_PacketEventHeader L))))
                         (unat (BufferLen (read_PacketEventData L h'
                                    (event + of_nat (sizeof_PacketEventHeader L))))) = p)"
proof -
  let ?H = "sizeof_PacketEventHeader L"
  let ?D = "sizeof_PacketEventData L"
  let ?n = "length p"
  let ?pre = "le_bytes 4 (of_nat (?H + ?D + ?n) :: 32 word)"
  let ?hd = "load_bytes h e (?H + ?D)"
  let ?frame = "?pre @ ?hd @ p"
  let ?N = "?H + ?D + ?n"
  from declared have nonneg: "0 \<le> sint (BufferLen d)" and n: "unat (BufferLen d) = ?n"
    by (rule sint_eq_length)+
  from nonneg have "unat (BufferLen d) < 2 ^ 31" by (rule unat_of_nonneg_sint)
  with n have n31: "?n < 2 ^ 31" by simp
  from wf have HD: "?H + ?D < 2 ^ 31" and D: "offsetof_Buffer L + 8 \<le> ?D"
    by (simp_all add: wf_layout_def)
  have bl: "BufferLen d = of_nat ?n"
    unfolding n [symmetric] by simp
  from PacketEventToBuffer_data [OF wf len ty] nonneg n payload
  have enc: "PacketEventToBuffer L h e len = Inr ?frame"
    unfolding d [symmetric] by (simp add: bl)
  have lenf: "length ?frame = 4 + ?N"
    by simp
  have prefix: "(word_of_le (take 4 ?frame) :: 32 word) = of_nat (length ?frame - 4)"
    by (simp add: word_of_le_le_bytes_32)
  have N32: "?N < 2 ^ 32"
    using HD n31 by simp
  then have uN: "unat (of_nat ?N :: 32 word) = ?N"
    unfolding unat_of_nat by simp
  let ?h1 = "store_bytes h0 q ?frame"
  let ?ptr = "q + 4 + of_nat ?H + of_nat ?D"
  let ?h2 = "store_bytes ?h1 (q + of_nat (4 + ?H + offsetof_Buffer L)) (le_bytes 8 ?ptr)"
  have slot_addr: "q + 4 + of_nat (?H + offsetof_Buffer L) = q + of_nat (4 + ?H + offsetof_Buffer L)"
    by simp
  have dec: "BufferToPacketEvent L ?h1 (q + 4) (of_nat ?N) = (?h2, q + 4, of_nat ?N)"
    unfolding BufferToPacketEvent_cases [OF wf] uN slot_addr using D by simp
  have fbound: "0 + length ?frame \<le> (2 ^ 64 :: nat)"
    using HD n31 by simp
  have sbound: "4 + ?H + offsetof_Buffer L + length (le_bytes 8 ?ptr) \<le> 2 ^ 64"
    using HD D by simp
  have in_frame: "load_bytes ?h1 (q + of_nat y) m = take m (drop y ?frame)"
    if "y + m \<le> length ?frame" for y m
    using load_bytes_store_bytes_inside [where x = 0 and bs = ?frame and y = y and n = m
        and h = h0 and b = q] fbound that by simp
  have past_slot: "load_bytes ?h2 (q + of_nat y) m = load_bytes ?h1 (q + of_nat y) m"
    if "y + m \<le> 2 ^ 64" and "apart (4 + ?H + offsetof_Buffer L) 8 y m" for y m
    using load_bytes_store_bytes_apart [where x = "4 + ?H + offsetof_Buffer L"
        and bs = "le_bytes 8 ?ptr" and y = y and n = m and h = ?h1 and b = q] sbound that
    by simp
  have hdr_bytes: "load_bytes ?h2 (q + of_nat 4) ?H = load_bytes h e ?H"
  proof -
    have "load_bytes ?h2 (q + of_nat 4) ?H = load_bytes ?h1 (q + of_nat 4) ?H"
      using HD by (intro past_slot) (simp_all add: apart_def)
    also have "\<dots> = take ?H (drop 4 ?frame)"
      by (intro in_frame) simp
    also have "\<dots> = load_bytes h e ?H"
      by (simp add: take_load_bytes)
    finally show ?thesis .
  qed
  have hdr: "read_PacketEventHeader L ?h2 (q + 4) = read_PacketEventHeader L h e"
    using read_PacketEventHeader_cong [OF wf, of ?h2 "q + of_nat 4" h e] hdr_bytes by simp
  have data_bytes: "load_bytes ?h1 (q + of_nat (4 + ?H)) ?D = load_bytes h (e + of_nat ?H) ?D"
  proof -
    have "load_bytes ?h1 (q + of_nat (4 + ?H)) ?D = take ?D (drop (4 + ?H) ?frame)"
      by (intro in_frame) simp
    also have "\<dots> = take ?D (drop ?H ?hd)"
      by simp
    also have "\<dots> = load_bytes h (e + of_nat ?H) ?D"
      by (rule load_bytes_offset [symmetric]) simp
    finally show ?thesis .
  qed
  have data1: "read_PacketEventData L ?h1 (q + of_nat (4 + ?H)) = d"
    unfolding d using wf data_bytes by (rule read_PacketEventData_cong)
  have "4 + ?H + ?D \<le> (2 ^ 64 :: nat)"
    using HD by simp
  from read_PacketEventData_store_Buffer [OF wf this, of ?h1 q ?ptr] data1
  have data2: "read_PacketEventData L ?h2 (q + of_nat (4 + ?H)) = d\<lparr>Buffer := ?ptr\<rparr>"
    by (simp add: add.assoc)
  have pl: "load_bytes ?h2 (q + of_nat (4 + ?H + ?D)) ?n = p"
  proof -
    have "load_bytes ?h2 (q + of_nat (4 + ?H + ?D)) ?n = load_bytes ?h1 (q + of_nat (4 + ?H + ?D)) ?n"
      using HD n31 D by (intro past_slot) (simp_all add: apart_def)
    also have "\<dots> = take ?n (drop (4 + ?H + ?D) ?frame)"
      by (intro in_frame) simp
    also have "\<dots> = p"
      by simp
    finally show ?thesis .
  qed
  have addr1: "q + 4 + of_nat ?H = q + of_nat (4 + ?H)"
    and addr2: "?ptr = q + of_nat (4 + ?H + ?D)"
    by simp_all
  from data2 have data2': "read_PacketEventData L ?h2 (q + 4 + of_nat ?H) = d\<lparr>Buffer := ?ptr\<rparr>"
    by (simp only: addr1)
  from pl n have pl': "load_bytes ?h2 (Buffer (d\<lparr>Buffer := ?ptr\<rparr>))
                         (unat (BufferLen (d\<lparr>Buffer := ?ptr\<rparr>))) = p"
    by (simp add: addr2 del: of_nat_add)
  from dec hdr data2' pl' have step:
    "case BufferToPacketEvent L ?h1 (q + 4) (of_nat (length ?frame - 4)) of
       (h', event, len') \<Rightarrow>
         event = q + 4
         \<and> read_PacketEventHeader L h' event = read_PacketEventHeader L h e
         \<and> read_PacketEventData L h' (event + of_nat ?H) = d\<lparr>Buffer := event + of_nat ?H + of_nat ?D\<rparr>
         \<and> load_bytes h' (Buffer (read_PacketEventData L h' (event + of_nat ?H)))
               (unat (BufferLen (read_PacketEventData L h' (event + of_nat ?H)))) = p"
    by (simp only: lenf add_diff_cancel_left' prod.case)
  show ?thesis
  proof (intro exI conjI)
    show "PacketEventToBuffer L h e len = Inr ?frame" by (fact enc)
    show "(word_of_le (take 4 ?frame) :: 32 word) = of_nat (length ?frame - 4)" by (fact prefix)
    show "case BufferToPacketEvent L ?h1 (q + 4) (of_nat (length ?frame - 4)) of
       (h', event, len') \<Rightarrow>
         event = q + 4
         \<and> read_PacketEventHeader L h' event = read_PacketEventHeader L h e
         \<and> read_PacketEventData L h' (event + of_nat ?H) = d\<lparr>Buffer := event + of_nat ?H + of_nat ?D\<rparr>
         \<and> load_bytes h' (Buffer (read_PacketEventData L h' (event + of_nat ?H)))
               (unat (BufferLen (read_PacketEventData L h' (event + of_nat ?H)))) = p"
      by (fact step)
  qed
qed

text \<open>
  The example data event, encoded, stored at address 0x3000 and decoded from 0x3004.
\<close>

theorem PacketEventToBuffer_BufferToPacketEvent_witness:
  "wf_layout example_layout
   \<and> sizeof_PacketEventHeader example_layout \<le> unat (107 :: 32 word)
   \<and> EventType (read_PacketEventHeader example_layout (example_memory 1) 0x1000)
       = PacketEventType_Data example_layout
   \<and> sint (BufferLen (read_PacketEventData example_layout (example_memory 1)
                        (0x1000 + of_nat (sizeof_PacketEventHeader example_layout))))
       = int (length [0x47, 0x45, 0x54 :: byte])
   \<and> load_bytes (example_memory 1)
         (Buffer (read_PacketEventData example_layout (example_memory 1)
                    (0x1000 + of_nat (sizeof_PacketEventHeader example_layout))))
         (length [0x47, 0x45, 0x54 :: byte]) = [0x47, 0x45, 0x54]
   \<and> (\<exists>frame. PacketEventToBuffer example_layout (example_memory 1) 0x1000 107 = Inr frame
         \<and> (word_of_le (take 4 frame) :: 32 word) = of_nat (length frame - 4)
         \<and> (case BufferToPacketEvent example_layout (store_bytes (\<lambda>_. 0) 0x3000 frame)
                     (0x3000 + 4) (of_nat (length frame - 4)) of
               (h', event, len') \<Rightarrow>
                 event = 0x3000 + 4
                 \<and> read_PacketEventHeader example_layout h' event
                     = read_PacketEventHeader example_layout (example_memory 1) 0x1000
                 \<and> read_PacketEventData example_layout h'
                       (event + of_nat (sizeof_PacketEventHeader example_layout))
                     = (read_PacketEventData example_layout (example_memory 1)
                          (0x1000 + of_nat (sizeof_PacketEventHeader example_layout)))
                         \<lparr>Buffer := event + of_nat (sizeof_PacketEventHeader example_layout)
                                       + of_nat (sizeof_PacketEventData example_layout)\<rparr>
                 \<and> load_bytes h'
                       (Buffer (read_PacketEventData example_layout h'
                                  (event + of_nat (sizeof_PacketEventHeader example_layout))))
                       (unat (BufferLen (read_PacketEventData example_layout h'
                                  (event + of_nat (sizeof_PacketEventHeader example_layout)))))
                     = [0x47, 0x45, 0x54]))"
proof -
  let ?d = "read_PacketEventData example_layout (example_memory 1)
              (0x1000 + of_nat (sizeof_PacketEventHeader example_layout))"
  have ty: "EventType (read_PacketEventHeader example_layout (example_memory 1) 0x1000)
              = PacketEventType_Data example_layout"
    by (simp add: example_event_type example_layout_sizes)
  have len: "sizeof_PacketEventHeader example_layout \<le> unat (107 :: 32 word)"
    by (simp add: example_layout_sizes)
  have d: "?d = \<lparr>PktType = 1, PtlType = 2, MsgType = 1, RealLen = 3, BufferLen = 3,
                  Buffer = 0x2000\<rparr>"
    using example_data [of 1] by (simp add: example_layout_sizes)
  have declared: "sint (BufferLen ?d) = int (length [0x47, 0x45, 0x54 :: byte])"
    by (simp only: d) simp
  have payload: "load_bytes (example_memory 1) (Buffer ?d) (length [0x47, 0x45, 0x54 :: byte])
                   = [0x47, 0x45, 0x54]"
    using example_payload [of 1] by (simp only: d) (simp add: numeral_3_eq_3)
  note roundtrip = PacketEventToBuffer_BufferToPacketEvent
    [OF wf_example_layout len ty refl declared payload, where ?h0.0 = "\<lambda>_. 0" and q = "0x3000"]
  show ?thesis
  proof (intro conjI)
    show "wf_layout example_layout" by (fact wf_example_layout)
  qed (fact len ty declared payload roundtrip)+
qed

section \<open>Properties of the event formatter\<close>

text \<open>
  C10. For every buffer whose length, read as unsigned, is smaller than the size of the header,
  \<open>PacketEventToString\<close> returns the text ErrorLength and nothing else: no field of the header
  or of the data section is rendered.
\<close>

theorem PacketEventToString_ErrorLength:
  "unat len < sizeof_PacketEventHeader L \<Longrightarrow>
     PacketEventToString pf env L h event len = Inr ''ErrorLength''"
  by (simp add: PacketEventToString_def)

text \<open>The example event with 71 bytes.\<close>

theorem PacketEventToString_ErrorLength_witness:
  "unat (71 :: 32 word) < sizeof_PacketEventHeader example_layout
   \<and> PacketEventToString libc example_env example_layout (example_memory 1) 0x1000 71
       = Inr ''ErrorLength''"
  using PacketEventToString_ErrorLength [of 71 example_layout libc example_env
      "example_memory 1" "0x1000"]
  by (simp add: example_layout_sizes)

section \<open>Properties of the merged strategy\<close>

lemma umap_find_cong_key:
  "h a = h b \<Longrightarrow> (\<And>k. eq k a \<longleftrightarrow> eq k b) \<Longrightarrow> umap_find h eq m a = umap_find h eq m b"
  by (induction m) auto

lemma umap_find_append_new:
  "umap_find h eq m key = None \<Longrightarrow> h k' = h key \<Longrightarrow> eq k' key \<Longrightarrow>
     umap_find h eq (m @ [(k', v)]) key = Some (length m)"
  by (induction m) (auto split: if_splits)

text \<open>
  Two keys with the same process id, destination port and role whose destination address
  objects are the same, byte for byte, have the same merged hash and are equal under the merged
  equality; inserting the second after the first adds nothing and lands on an entry of the
  table whose key is equal to the first.
\<close>

lemma Merged_same_object_same_entry:
  assumes "NetStatisticsKey.PID a = NetStatisticsKey.PID b"
    and "NetStatisticsKey.DstAddr a = NetStatisticsKey.DstAddr b"
    and "NetStatisticsKey.DstPort a = NetStatisticsKey.DstPort b"
    and "RoleType a = RoleType b"
  shows "MergedNetStatisticsKeyHash XXH bytes_of_Type a
           = MergedNetStatisticsKeyHash XXH bytes_of_Type b"
    and "MergedNetStatisticsKeyEqual a b"
    and "case umap_insert (MergedNetStatisticsKeyHash XXH bytes_of_Type)
                MergedNetStatisticsKeyEqual m (a, va) of
           (m1, i1, _) \<Rightarrow>
             i1 < length m1
             \<and> MergedNetStatisticsKeyEqual (fst (m1 ! i1)) a
             \<and> umap_insert (MergedNetStatisticsKeyHash XXH bytes_of_Type)
                  MergedNetStatisticsKeyEqual m1 (b, vb) = (m1, i1, False)"
proof -
  let ?h = "MergedNetStatisticsKeyHash XXH bytes_of_Type"
  show hash: "?h a = ?h b"
    using assms by (simp add: MergedNetStatisticsKeyHash_def)
  show eq: "MergedNetStatisticsKeyEqual a b"
    using assms by (simp add: MergedNetStatisticsKeyEqual_def SockAddress_eq_def)
  have refl: "MergedNetStatisticsKeyEqual a a"
    by (simp add: MergedNetStatisticsKeyEqual_def SockAddress_eq_def)
  have "MergedNetStatisticsKeyEqual k a \<longleftrightarrow> MergedNetStatisticsKeyEqual k b" for k
    using assms by (simp add: MergedNetStatisticsKeyEqual_def)
  with hash have same: "umap_find ?h MergedNetStatisticsKeyEqual m' a
      = umap_find ?h MergedNetStatisticsKeyEqual m' b" for m'
    by (rule umap_find_cong_key)
  show "case umap_insert ?h MergedNetStatisticsKeyEqual m (a, va) of
      (m1, i1, _) \<Rightarrow>
        i1 < length m1
        \<and> MergedNetStatisticsKeyEqual (fst (m1 ! i1)) a
        \<and> umap_insert ?h MergedNetStatisticsKeyEqual m1 (b, vb) = (m1, i1, False)"
  proof (cases "umap_find ?h MergedNetStatisticsKeyEqual m a")
    case None
    then have "umap_find ?h MergedNetStatisticsKeyEqual (m @ [(a, va)]) a = Some (length m)"
      using refl by (intro umap_find_append_new) simp_all
    with same [of "m @ [(a, va)]"]
    have "umap_find ?h MergedNetStatisticsKeyEqual (m @ [(a, va)]) b = Some (length m)"
      by simp
    with None refl show ?thesis
      by (simp add: umap_insert_def)
  next
    case (Some i)
    then have "i < length m \<and> MergedNetStatisticsKeyEqual (fst (m ! i)) a"
      using umap_find_Some [of ?h MergedNetStatisticsKeyEqual m a i] by simp
    with Some same [of m] show ?thesis
      by (simp add: umap_insert_def)
  qed
qed

text \<open>
  C5. Two keys with the same process id, destination address, destination port and role, from
  different sockets and source ports, should have the same merged hash, compare equal under the
  merged equality and share one entry of a table that uses this strategy. The code does not
  do that for the two example keys. Both have process id 4242, destination port 8080, role
  Client and destination address 10.0.0.2 (IPv4), and they are equal under the merged
  equality. The merged hash reads every byte of the address object, also the twelve bytes of
  the union that an IPv4 address leaves as they were, and those differ (zeros in the first
  key, what \<open>SockAddressFromString\<close> left there in the second): the hashes are 0x50e59f70 and
  0xf374a7f6, looking the second key up in a table that holds the first finds nothing, and
  inserting it adds a second entry.
\<close>

theorem Merged_equal_keys_two_entries:
  "NetStatisticsKey.PID (example_key 11 50001 PacketRoleType_Client)
     = NetStatisticsKey.PID example_key_other_socket
   \<and> NetStatisticsKey.DstPort (example_key 11 50001 PacketRoleType_Client)
     = NetStatisticsKey.DstPort example_key_other_socket
   \<and> RoleType (example_key 11 50001 PacketRoleType_Client) = RoleType example_key_other_socket
   \<and> NetStatisticsKey.DstAddr (example_key 11 50001 PacketRoleType_Client)
     = \<lparr>Type = SockAddressType_IPV4,
        Addr = [10, 0, 0, 2, 0, 0, 0, 0, 0, 0, 0, 0, 0, 0, 0, 0]\<rparr>
   \<and> NetStatisticsKey.DstAddr example_key_other_socket
     = \<lparr>Type = SockAddressType_IPV4,
        Addr = [10, 0, 0, 2, 1, 2, 3, 4, 5, 6, 7, 8, 9, 10, 11, 12]\<rparr>
   \<and> SockAddressToString libc (NetStatisticsKey.DstAddr (example_key 11 50001 PacketRoleType_Client))
     = ''10.0.0.2''
   \<and> SockAddressToString libc (NetStatisticsKey.DstAddr example_key_other_socket) = ''10.0.0.2''
   \<and> SockAddress_eq (NetStatisticsKey.DstAddr (example_key 11 50001 PacketRoleType_Client))
        (NetStatisticsKey.DstAddr example_key_other_socket)
   \<and> MergedNetStatisticsKeyEqual (example_key 11 50001 PacketRoleType_Client)
        example_key_other_socket
   \<and> MergedNetStatisticsKeyHash XXH32 example_bytes_of_Type
        (example_key 11 50001 PacketRoleType_Client) = 0x50e59f70
   \<and> MergedNetStatisticsKeyHash XXH32 example_bytes_of_Type example_key_other_socket
       = 0xf374a7f6
   \<and> umap_find (MergedNetStatisticsKeyHash XXH32 example_bytes_of_Type)
        MergedNetStatisticsKeyEqual
        [(example_key 11 50001 PacketRoleType_Client, example_tcp)] example_key_other_socket
       = None
   \<and> umap_insert (MergedNetStatisticsKeyHash XXH32 example_bytes_of_Type)
        MergedNetStatisticsKeyEqual
        [(example_key 11 50001 PacketRoleType_Client, example_tcp)]
        (example_key_other_socket, sNewTcp)
       = ([(example_key 11 50001 PacketRoleType_Client, example_tcp),
           (example_key_other_socket, sNewTcp)], 1, True)"
proof -
  have addrs:
    "NetStatisticsKey.DstAddr (example_key 11 50001 PacketRoleType_Client)
       = \<lparr>Type = SockAddressType_IPV4,
          Addr = [10, 0, 0, 2, 0, 0, 0, 0, 0, 0, 0, 0, 0, 0, 0, 0]\<rparr>"
    "NetStatisticsKey.DstAddr example_key_other_socket
       = \<lparr>Type = SockAddressType_IPV4,
          Addr = [10, 0, 0, 2, 1, 2, 3, 4, 5, 6, 7, 8, 9, 10, 11, 12]\<rparr>"
    by (simp_all add: example_key_def example_key_other_socket_def example_parsed_address)
  have texts:
    "SockAddressToString libc (NetStatisticsKey.DstAddr (example_key 11 50001 PacketRoleType_Client))
       = ''10.0.0.2''"
    "SockAddressToString libc (NetStatisticsKey.DstAddr example_key_other_socket) = ''10.0.0.2''"
    unfolding addrs by (simp_all add: SockAddressToString_def libc_eval)
  have fields:
    "NetStatisticsKey.PID (example_key 11 50001 PacketRoleType_Client)
       = NetStatisticsKey.PID example_key_other_socket"
    "NetStatisticsKey.DstPort (example_key 11 50001 PacketRoleType_Client)
       = NetStatisticsKey.DstPort example_key_other_socket"
    "RoleType (example_key 11 50001 PacketRoleType_Client) = RoleType example_key_other_socket"
    "SockAddress_eq (NetStatisticsKey.DstAddr (example_key 11 50001 PacketRoleType_Client))
        (NetStatisticsKey.DstAddr example_key_other_socket)"
    by (simp_all add: SockAddress_eq_def example_key_def example_key_other_socket_def
        example_parsed_address)
  have find: "umap_find (MergedNetStatisticsKeyHash XXH32 example_bytes_of_Type)
        MergedNetStatisticsKeyEqual
        [(example_key 11 50001 PacketRoleType_Client, example_tcp)] example_key_other_socket
       = None"
    by (simp add: example_merged_hashes)
  then have "umap_insert (MergedNetStatisticsKeyHash XXH32 example_bytes_of_Type)
        MergedNetStatisticsKeyEqual
        [(example_key 11 50001 PacketRoleType_Client, example_tcp)]
        (example_key_other_socket, sNewTcp)
       = ([(example_key 11 50001 PacketRoleType_Client, example_tcp),
           (example_key_other_socket, sNewTcp)], 1, True)"
    by (simp add: umap_insert_def)
  with addrs texts fields find example_merged_equal example_merged_hashes show ?thesis
    by (intro conjI)
qed

section \<open>Properties of the C library model\<close>

lemma below_10_cases: "n < 10 \<Longrightarrow> n \<in> {0, 1, 2, 3, 4, 5, 6, 7, 8, 9 :: nat}"
  by simp arith

lemma below_16_cases:
  "n < 16 \<Longrightarrow> n \<in> {0, 1, 2, 3, 4, 5, 6, 7, 8, 9, 10, 11, 12, 13, 14, 15 :: nat}"
  by simp arith

lemma decimal_digit:
  assumes "n < 10"
  shows "digit_value (''0123456789'' ! n) = Some n"
    and "''0123456789'' ! n \<noteq> CHR ''.''"
    and "CHR ''.'' \<noteq> ''0123456789'' ! n"
    and "''0123456789'' ! n = CHR ''0'' \<longleftrightarrow> n = 0"
  using below_10_cases [OF assms] by (auto simp add: digit_value_def)

lemma hex_digit:
  assumes "n < 16"
  shows "digit_value (''0123456789abcdef'' ! n) = Some n"
    and "''0123456789abcdef'' ! n \<noteq> CHR ''.''"
    and "''0123456789abcdef'' ! n \<noteq> CHR '':''"
    and "CHR ''.'' \<noteq> ''0123456789abcdef'' ! n"
    and "CHR '':'' \<noteq> ''0123456789abcdef'' ! n"
  using below_16_cases [OF assms] by (auto simp add: digit_value_def)

lemma number_value_snoc:
  "number_value base acc (s @ [c]) =
     (case number_value base acc s of
        None \<Rightarrow> None
      | Some v \<Rightarrow> (case digit_value c of
                    None \<Rightarrow> None
                  | Some d \<Rightarrow> if d < base then Some (v * base + d) else None))"
  by (induction s arbitrary: acc) (auto split: option.splits)

lemma to_string_not_Nil: "to_string n \<noteq> []"
  by (subst to_string.simps) simp

lemma to_hex_not_Nil: "to_hex n \<noteq> []"
  by (subst to_hex.simps) simp

lemma number_value_to_string: "number_value 10 0 (to_string n) = Some n"
proof (induction n rule: to_string.induct)
  case (1 n)
  show ?case
  proof (cases "n < 10")
    case True
    then show ?thesis
      by (subst to_string.simps) (simp add: decimal_digit)
  next
    case False
    with 1 have "number_value 10 0 (to_string (n div 10)) = Some (n div 10)"
      by simp
    with False show ?thesis
      by (subst to_string.simps) (simp add: number_value_snoc decimal_digit)
  qed
qed

lemma number_value_to_hex: "number_value 16 0 (to_hex n) = Some n"
proof (induction n rule: to_hex.induct)
  case (1 n)
  show ?case
  proof (cases "n < 16")
    case True
    then show ?thesis
      by (subst to_hex.simps) (simp add: hex_digit)
  next
    case False
    with 1 have "number_value 16 0 (to_hex (n div 16)) = Some (n div 16)"
      by simp
    with False show ?thesis
      by (subst to_hex.simps) (simp add: number_value_snoc hex_digit)
  qed
qed

lemma to_string_no_dot: "CHR ''.'' \<notin> set (to_string n)"
proof (induction n rule: to_string.induct)
  case (1 n)
  then show ?case
    by (subst to_string.simps) (auto simp add: decimal_digit)
qed

lemma to_hex_no_dot_colon: "CHR ''.'' \<notin> set (to_hex n) \<and> CHR '':'' \<notin> set (to_hex n)"
proof (induction n rule: to_hex.induct)
  case (1 n)
  then show ?case
    by (subst to_hex.simps, subst (2) to_hex.simps) (auto simp add: hex_digit)
qed

lemma to_string_length: "n < 1000 \<Longrightarrow> length (to_string n) \<le> 3"
  by (subst to_string.simps, subst to_string.simps, subst to_string.simps) simp

lemma to_hex_length: "n < 65536 \<Longrightarrow> length (to_hex n) \<le> 4"
  by (subst to_hex.simps, subst to_hex.simps, subst to_hex.simps, subst to_hex.simps) simp

lemma to_string_hd: "0 < n \<Longrightarrow> hd (to_string n) \<noteq> CHR ''0''"
proof (induction n rule: to_string.induct)
  case (1 n)
  show ?case
  proof (cases "n < 10")
    case True
    from True have "to_string n = [''0123456789'' ! n]"
      by (subst to_string.simps) simp
    with True 1(2) decimal_digit(4) [of n] show ?thesis
      by (simp only: list.sel)
  next
    case False
    with 1 have "hd (to_string (n div 10)) \<noteq> CHR ''0''"
      by simp
    with False show ?thesis
      by (subst to_string.simps) (simp add: to_string_not_Nil)
  qed
qed

lemma octet_value_to_string:
  assumes "n \<le> 255"
  shows "octet_value (to_string n) = Some n"
proof (cases "n = 0")
  case True
  then show ?thesis
    by (simp add: octet_value_def to_string.simps digit_value_def)
next
  case False
  with assms to_string_length [of n] to_string_hd [of n] show ?thesis
    by (simp add: octet_value_def to_string_not_Nil number_value_to_string)
qed

lemma group_bytes_to_hex:
  assumes "n < 65536"
  shows "group_bytes (to_hex n) = Some [of_nat (n div 256), of_nat (n mod 256)]"
  using assms to_hex_length [of n]
  by (simp add: group_bytes_def to_hex_not_Nil number_value_to_hex)

lemma split_on_none: "c \<notin> set xs \<Longrightarrow> split_on c xs = [xs]"
  by (induction xs) auto

lemma split_on_first: "c \<notin> set xs \<Longrightarrow> split_on c (xs @ c # ys) = xs # split_on c ys"
  by (induction xs) auto

lemma list_of_length_4: "length xs = 4 \<Longrightarrow> \<exists>a b c d. xs = [a, b, c, d]"
  by (simp add: eval_nat_numeral length_Suc_conv) blast

lemma unat_byte_le: "unat (b :: byte) \<le> 255"
  using unsigned_less [of b, where ?'a = nat] by simp

lemma inet_ntop4_four:
  "inet_ntop4 [a, b, c, d] =
     to_string (unat a) @ CHR ''.'' # to_string (unat b) @ CHR ''.'' # to_string (unat c)
       @ CHR ''.'' # to_string (unat d)"
  by (simp add: inet_ntop4_def)

lemma inet_pton4_inet_ntop4:
  assumes "length src = 4"
  shows "inet_pton4 (inet_ntop4 src) = Some src"
proof -
  from assms obtain a b c d where src: "src = [a, b, c, d]"
    using list_of_length_4 by blast
  have "split_on CHR ''.'' (inet_ntop4 src)
          = [to_string (unat a), to_string (unat b), to_string (unat c), to_string (unat d)]"
    unfolding src inet_ntop4_four
    by (simp add: split_on_first split_on_none to_string_no_dot)
  then show ?thesis
    by (simp add: inet_pton4_def src octet_value_to_string unat_byte_le)
qed

lemma inet_ntop4_dot: "CHR ''.'' \<in> set (inet_ntop4 src)"
  by (simp add: inet_ntop4_def)

lemma groups_of_below: "g \<in> set (groups_of src) \<Longrightarrow> g < 65536"
proof (induction src rule: groups_of.induct)
  case (1 a b bs)
  have "unat a \<le> 255" "unat b \<le> 255"
    by (rule unat_byte_le)+
  with 1 show ?case
    by auto
qed simp_all

lemma groups_of_bytes:
  "even (length src) \<Longrightarrow>
     concat (map (\<lambda>n. [of_nat (n div 256), of_nat (n mod 256)]) (groups_of src)) = src"
proof (induction src rule: groups_of.induct)
  case (1 a b bs)
  have b: "unat b < 256"
    using unat_byte_le [of b] by simp
  then have "(unat a * 256 + unat b) div 256 = unat a" "(unat a * 256 + unat b) mod 256 = unat b"
    by simp_all
  with 1 show ?case
    by simp
qed simp_all

lemma length_groups_of: "length (groups_of src) = length src div 2"
  by (induction src rule: groups_of.induct) simp_all

lemma join_colon_Cons:
  "join_colon (p # ps) = (if ps = [] then p else p @ CHR '':'' # join_colon ps)"
  by (cases ps) simp_all

lemma join_colon_not_Nil: "p \<noteq> [] \<Longrightarrow> join_colon (p # ps) \<noteq> []"
  by (simp add: join_colon_Cons)

lemma hd_join_colon:
  "p \<noteq> [] \<Longrightarrow> CHR '':'' \<notin> set p \<Longrightarrow> hd (join_colon (p # ps) @ R) \<noteq> CHR '':''"
  by (cases p) (auto simp add: join_colon_Cons)

lemma colon_parts_join:
  "\<forall>p\<in>set ps. p \<noteq> [] \<and> CHR '':'' \<notin> set p \<Longrightarrow> colon_parts (join_colon ps) = ps"
proof (induction ps rule: join_colon.induct)
  case 1
  show ?case by (simp add: colon_parts_def)
next
  case (2 p)
  then show ?case by (simp add: colon_parts_def split_on_none)
next
  case (3 p q qs)
  then have "colon_parts (join_colon (q # qs)) = q # qs"
    by simp
  moreover from 3(2) have "join_colon (q # qs) \<noteq> []"
    by (intro join_colon_not_Nil) simp
  ultimately have "split_on CHR '':'' (join_colon (q # qs)) = q # qs"
    by (simp add: colon_parts_def)
  with 3(2) show ?case
    by (simp add: colon_parts_def split_on_first)
qed

lemma join_colon_no_dot:
  "\<forall>p\<in>set ps. CHR ''.'' \<notin> set p \<Longrightarrow> CHR ''.'' \<notin> set (join_colon ps)"
  by (induction ps rule: join_colon.induct) simp_all

lemma side_bytes_hex:
  "\<forall>g\<in>set gs. g < 65536 \<Longrightarrow>
     side_bytes v4 (map to_hex gs)
       = Some (concat (map (\<lambda>n. [of_nat (n div 256), of_nat (n mod 256)]) gs))"
proof (induction gs)
  case Nil
  show ?case by simp
next
  case (Cons g gs)
  show ?case
  proof (cases gs)
    case Nil
    with Cons(2) show ?thesis
      by (simp add: group_bytes_to_hex to_hex_no_dot_colon)
  next
    case (Cons g' gs')
    with Cons.IH Cons.prems show ?thesis
      by (simp add: group_bytes_to_hex)
  qed
qed

lemma split_double_colon_none: "CHR '':'' \<notin> set p \<Longrightarrow> split_double_colon p = None"
  by (induction p rule: split_double_colon.induct) auto

lemma split_double_colon_here:
  "CHR '':'' \<notin> set p \<Longrightarrow> split_double_colon (p @ CHR '':'' # CHR '':'' # R) = Some (p, R)"
proof (induction p)
  case Nil
  show ?case by simp
next
  case (Cons x p)
  then show ?case
    by (cases "p @ CHR '':'' # CHR '':'' # R") auto
qed

lemma split_double_colon_skip:
  "CHR '':'' \<notin> set p \<Longrightarrow> rest \<noteq> [] \<Longrightarrow> hd rest \<noteq> CHR '':'' \<Longrightarrow>
     split_double_colon (p @ CHR '':'' # rest)
       = map_option (\<lambda>(l, r). (p @ CHR '':'' # l, r)) (split_double_colon rest)"
proof (induction p)
  case Nil
  then show ?case
    by (cases rest) auto
next
  case (Cons x p)
  then show ?case
    by (cases "p @ CHR '':'' # rest") (auto simp add: option.map_comp comp_def split_def)
qed

lemma split_double_colon_join_none:
  "\<forall>p\<in>set ps. p \<noteq> [] \<and> CHR '':'' \<notin> set p \<Longrightarrow> split_double_colon (join_colon ps) = None"
proof (induction ps rule: join_colon.induct)
  case 1
  show ?case by simp
next
  case (2 p)
  then show ?case by (simp add: split_double_colon_none)
next
  case (3 p q qs)
  then have "split_double_colon (join_colon (q # qs)) = None"
    by simp
  moreover from 3(2) have "join_colon (q # qs) \<noteq> []" "hd (join_colon (q # qs)) \<noteq> CHR '':''"
    using hd_join_colon [of q qs "[]"] by (simp_all add: join_colon_not_Nil)
  ultimately show ?case
    using 3(2) by (simp add: split_double_colon_skip)
qed

lemma split_double_colon_join:
  "\<forall>p\<in>set ps. p \<noteq> [] \<and> CHR '':'' \<notin> set p \<Longrightarrow>
     split_double_colon (join_colon ps @ CHR '':'' # CHR '':'' # R) = Some (join_colon ps, R)"
proof (induction ps rule: join_colon.induct)
  case 1
  show ?case by simp
next
  case (2 p)
  then show ?case by (simp add: split_double_colon_here)
next
  case (3 p q qs)
  then have "split_double_colon (join_colon (q # qs) @ CHR '':'' # CHR '':'' # R)
               = Some (join_colon (q # qs), R)"
    by simp
  moreover from 3(2) have "join_colon (q # qs) @ CHR '':'' # CHR '':'' # R \<noteq> []"
      "hd (join_colon (q # qs) @ CHR '':'' # CHR '':'' # R) \<noteq> CHR '':''"
    using hd_join_colon [of q qs "CHR '':'' # CHR '':'' # R"] by simp_all
  ultimately show ?case
    using 3(2) by (simp add: split_double_colon_skip)
qed

lemma fold_max_in: "fold max xs (a::nat) = a \<or> fold max xs a \<in> set xs"
proof (induction xs arbitrary: a)
  case Nil
  show ?case by simp
next
  case (Cons x xs)
  from Cons [of "max x a"] show ?case
    by (auto simp add: max_def split: if_splits)
qed

lemma takeWhile_stops:
  assumes "x \<in> set xs" and "\<not> P x"
  shows "length (takeWhile P xs) < length xs \<and> \<not> P (xs ! length (takeWhile P xs))"
proof -
  have "takeWhile P xs \<noteq> xs"
    using assms by (auto simp add: takeWhile_eq_all_conv)
  then have "length (takeWhile P xs) \<noteq> length xs"
    using takeWhile_eq_take [of P xs] by auto
  with length_takeWhile_le [of P xs] have "length (takeWhile P xs) < length xs"
    by simp
  then show ?thesis
    by (simp add: nth_length_takeWhile)
qed

lemma best_run_Some:
  assumes "best_run ws = Some (base, len)"
  shows "2 \<le> len" and "base + len \<le> length ws" and "take len (drop base ws) = replicate len 0"
proof -
  define lens where "lens = map (zero_run_at ws) [0..<length ws]"
  from assms have len: "len = fold max lens 0" and two: "2 \<le> len"
    and base: "base = length (takeWhile (\<lambda>l. l \<noteq> len) lens)"
    by (auto simp add: best_run_def lens_def Let_def split: if_splits)
  from two show "2 \<le> len" .
  from fold_max_in [of lens 0] len two have "len \<in> set lens"
    by auto
  then have "base < length lens \<and> \<not> (lens ! base \<noteq> len)"
    unfolding base by (rule takeWhile_stops) simp
  then have inside: "base < length ws" and "zero_run_at ws base = len"
    by (auto simp add: lens_def)
  then have run: "length (takeWhile (\<lambda>w. w = 0) (drop base ws)) = len"
    by (simp add: zero_run_at_def)
  with length_takeWhile_le [of "\<lambda>w. w = 0" "drop base ws"] inside
  show "base + len \<le> length ws"
    by simp
  have "take len (drop base ws) = takeWhile (\<lambda>w. w = 0) (drop base ws)"
    using takeWhile_eq_take [of "\<lambda>w. w = 0" "drop base ws"] run by simp
  moreover have "\<forall>w\<in>set (takeWhile (\<lambda>w. w = 0) (drop base ws)). w = 0"
    by (auto dest: set_takeWhileD)
  then have "replicate (length (takeWhile (\<lambda>w. w = 0) (drop base ws))) 0
               = takeWhile (\<lambda>w. w = 0) (drop base ws)"
    by (rule replicate_length_same)
  ultimately show "take len (drop base ws) = replicate len 0"
    using run by simp
qed

lemma hex_parts: "\<forall>p\<in>set (map to_hex gs). p \<noteq> [] \<and> CHR '':'' \<notin> set p"
  by (simp add: to_hex_not_Nil to_hex_no_dot_colon)

lemma length_group_bytes:
  "length (concat (map (\<lambda>n. [of_nat (n div 256), of_nat (n mod 256)]) gs)) = 2 * length gs"
  by (induction gs) simp_all

lemma zero_group_bytes: "concat (replicate k [0, 0]) = replicate (2 * k) (0 :: byte)"
  by (induction k) simp_all

lemma inet_pton6_inet_ntop6:
  assumes src: "length src = 16" and dot: "CHR ''.'' \<notin> set (inet_ntop6 src)"
  shows "inet_pton6 (inet_ntop6 src) = Some src"
proof -
  let ?gb = "\<lambda>n. [of_nat (n div 256), of_nat (n mod 256) :: byte]"
  define ws where "ws = groups_of src"
  have below: "\<forall>g\<in>set ws. g < 65536"
    by (simp add: ws_def groups_of_below)
  have bytes: "concat (map ?gb ws) = src"
    unfolding ws_def using src by (intro groups_of_bytes) simp
  have len_ws: "length ws = 8"
    by (simp add: ws_def length_groups_of src)
  show ?thesis
  proof (cases "best_run ws")
    case None
    then have rendered: "inet_ntop6 src = join_colon (map to_hex ws)"
      by (simp add: inet_ntop6_def ws_def)
    have "split_double_colon (join_colon (map to_hex ws)) = None"
      using hex_parts by (rule split_double_colon_join_none)
    moreover have "colon_parts (join_colon (map to_hex ws)) = map to_hex ws"
      using hex_parts by (rule colon_parts_join)
    moreover have "side_bytes True (map to_hex ws) = Some src"
      using side_bytes_hex [OF below] bytes by simp
    ultimately show ?thesis
      by (simp add: inet_pton6_def rendered src)
  next
    case (Some run)
    obtain base len where run: "run = (base, len)"
      by (cases run)
    with Some have best: "best_run ws = Some (base, len)"
      by simp
    note facts = best_run_Some [OF best]
    define L where "L = take base ws"
    define R where "R = drop (base + len) ws"
    have mixed: "\<not> (base = 0 \<and> (len = 6 \<or> (len = 5 \<and> ws ! 5 = 0xffff)))"
    proof
      assume "base = 0 \<and> (len = 6 \<or> (len = 5 \<and> ws ! 5 = 0xffff))"
      with best have "inet_ntop6 src
          = ''::'' @ (if len = 5 then ''ffff:'' else []) @ inet_ntop4 (drop 12 src)"
        by (simp add: inet_ntop6_def ws_def [symmetric] del: append.simps)
      with dot inet_ntop4_dot [of "drop 12 src"] show False
        by simp
    qed
    with best have rendered: "inet_ntop6 src
        = join_colon (map to_hex L) @ CHR '':'' # CHR '':'' # join_colon (map to_hex R)"
      by (auto simp add: inet_ntop6_def ws_def [symmetric] L_def R_def)
    have split: "split_double_colon (inet_ntop6 src)
        = Some (join_colon (map to_hex L), join_colon (map to_hex R))"
      unfolding rendered using hex_parts by (rule split_double_colon_join)
    have partsL: "colon_parts (join_colon (map to_hex L)) = map to_hex L"
      using hex_parts by (rule colon_parts_join)
    have partsR: "colon_parts (join_colon (map to_hex R)) = map to_hex R"
      using hex_parts by (rule colon_parts_join)
    have "\<forall>g\<in>set L. g < 65536"
      using below by (auto simp add: L_def dest: in_set_takeD)
    then have sideL: "side_bytes False (map to_hex L) = Some (concat (map ?gb L))"
      by (rule side_bytes_hex)
    have "\<forall>g\<in>set R. g < 65536"
      using below by (auto simp add: R_def dest: in_set_dropD)
    then have sideR: "side_bytes True (map to_hex R) = Some (concat (map ?gb R))"
      by (rule side_bytes_hex)
    have lenL: "length L = base" and lenR: "length R = 8 - (base + len)"
      using facts(2) by (simp_all add: L_def R_def len_ws)
    have ws: "ws = L @ replicate len 0 @ R"
    proof -
      have "ws = take base ws @ take len (drop base ws) @ drop len (drop base ws)"
        by (simp only: append_take_drop_id)
      then show ?thesis
        by (simp add: L_def R_def facts(3) add.commute)
    qed
    have "concat (map ?gb ws) = concat (map ?gb (L @ replicate len 0 @ R))"
      using ws by simp
    then have "concat (map ?gb L) @ replicate (2 * len) 0 @ concat (map ?gb R)
                 = concat (map ?gb ws)"
      by (simp add: zero_group_bytes)
    with bytes have whole: "concat (map ?gb L) @ replicate (2 * len) 0 @ concat (map ?gb R) = src"
      by simp
    have count: "16 - length (concat (map ?gb L)) - length (concat (map ?gb R)) = 2 * len"
      and less: "length (concat (map ?gb L)) + length (concat (map ?gb R)) < 16"
      using facts(1,2) by (simp_all add: length_group_bytes lenL lenR len_ws)
    show ?thesis
      by (simp only: inet_pton6_def split partsL partsR sideL sideR option.case prod.case
          count less if_True whole)
  qed
qed

lemma libc_sel:
  "inet_ntop libc AF_INET = inet_ntop4" "inet_ntop libc AF_INET6 = inet_ntop6"
  "inet_pton libc AF_INET = inet_pton4" "inet_pton libc AF_INET6 = inet_pton6"
  by (simp_all add: libc_def)

lemma SockAddress_IPV4_text:
  assumes "valid_SockAddress a" and "Type a = SockAddressType_IPV4"
  shows "CHR ''.'' \<in> set (SockAddressToString libc a)"
    and "SockAddressFromString libc addr (SockAddressToString libc a)
           = addr\<lparr>Type := SockAddressType_IPV4, Addr := take 4 (Addr a) @ drop 4 (Addr addr)\<rparr>"
proof -
  from assms have rendered: "SockAddressToString libc a = inet_ntop4 (take 4 (Addr a))"
    by (simp add: SockAddressToString_def libc_sel)
  then show dot: "CHR ''.'' \<in> set (SockAddressToString libc a)"
    by (simp add: inet_ntop4_dot)
  from assms have "length (take 4 (Addr a)) = 4"
    by (simp add: valid_SockAddress_def)
  then have "inet_pton4 (inet_ntop4 (take 4 (Addr a))) = Some (take 4 (Addr a))"
    by (rule inet_pton4_inet_ntop4)
  with dot assms show "SockAddressFromString libc addr (SockAddressToString libc a)
      = addr\<lparr>Type := SockAddressType_IPV4, Addr := take 4 (Addr a) @ drop 4 (Addr addr)\<rparr>"
    by (simp add: SockAddressFromString_def rendered libc_sel valid_SockAddress_def)
qed

lemma SockAddress_IPV6_text:
  assumes "valid_SockAddress a" and "Type a = SockAddressType_IPV6"
    and "CHR ''.'' \<notin> set (SockAddressToString libc a)"
  shows "SockAddressFromString libc addr (SockAddressToString libc a)
           = addr\<lparr>Type := SockAddressType_IPV6, Addr := Addr a @ drop 16 (Addr addr)\<rparr>"
proof -
  from assms have rendered: "SockAddressToString libc a = inet_ntop6 (Addr a)"
    by (simp add: SockAddressToString_def libc_sel valid_SockAddress_def)
  from assms have "inet_pton6 (inet_ntop6 (Addr a)) = Some (Addr a)"
    by (intro inet_pton6_inet_ntop6) (simp_all add: rendered valid_SockAddress_def)
  with assms show ?thesis
    by (simp add: SockAddressFromString_def libc_sel valid_SockAddress_def rendered)
qed

lemma SockAddressFromString_Type:
  "Type (SockAddressFromString pf addr s)
     = (if CHR ''.'' \<in> set s then SockAddressType_IPV4 else SockAddressType_IPV6)"
  by (simp add: SockAddressFromString_def Let_def split: option.splits)

lemma inet_ntop6_dot_run:
  "CHR ''.'' \<in> set (inet_ntop6 src) \<longleftrightarrow>
     (case best_run (groups_of src) of
        None \<Rightarrow> False
      | Some (base, len) \<Rightarrow>
          base = 0 \<and> (len = 6 \<or> (len = 5 \<and> groups_of src ! 5 = 0xffff)))"
proof (cases "best_run (groups_of src)")
  case None
  then show ?thesis
    by (simp add: inet_ntop6_def join_colon_no_dot to_hex_no_dot_colon)
next
  case (Some run)
  obtain base len where "run = (base, len)"
    by (cases run)
  with Some have best: "best_run (groups_of src) = Some (base, len)"
    by simp
  have "CHR ''.'' \<notin> set (join_colon (map to_hex gs))" for gs
    by (rule join_colon_no_dot) (simp add: to_hex_no_dot_colon)
  with best inet_ntop4_dot [of "drop 12 src"] show ?thesis
    by (auto simp add: inet_ntop6_def Let_def)
qed

lemma best_run_maximal:
  assumes "best_run ws = Some (base, len)" and "base + len < length ws"
  shows "ws ! (base + len) \<noteq> 0"
proof -
  define lens where "lens = map (zero_run_at ws) [0..<length ws]"
  from assms have len: "len = fold max lens 0" and two: "2 \<le> len"
    and base: "base = length (takeWhile (\<lambda>l. l \<noteq> len) lens)"
    by (auto simp add: best_run_def lens_def Let_def split: if_splits)
  from fold_max_in [of lens 0] len two have "len \<in> set lens"
    by auto
  then have "base < length lens \<and> \<not> (lens ! base \<noteq> len)"
    unfolding base by (rule takeWhile_stops) simp
  then have "zero_run_at ws base = len"
    by (auto simp add: lens_def)
  then have run: "length (takeWhile (\<lambda>w. w = 0) (drop base ws)) = len"
    by (simp add: zero_run_at_def)
  with assms(2) have "length (takeWhile (\<lambda>w. w = 0) (drop base ws)) < length (drop base ws)"
    by simp
  then have "\<not> (drop base ws ! length (takeWhile (\<lambda>w. w = 0) (drop base ws)) = 0)"
    by (rule nth_length_takeWhile)
  with run assms(2) show ?thesis
    by simp
qed

lemma list_of_length_8:
  "length xs = 8 \<Longrightarrow> \<exists>a b c d e f g h. xs = [a, b, c, d, e, f, g, h]"
  by (simp add: eval_nat_numeral length_Suc_conv) blast

lemma best_run_mapped:
  "best_run [0, 0, 0, 0, 0, 65535, g, h] = Some (0, 5)"
  by (simp add: best_run_def zero_run_at_def upt_conv_Cons)

lemma best_run_compatible:
  "g \<noteq> 0 \<Longrightarrow> best_run [0, 0, 0, 0, 0, 0, g, h] = Some (0, 6)"
  by (simp add: best_run_def zero_run_at_def upt_conv_Cons)

lemma best_run_dotted:
  assumes "length ws = 8"
  shows "(case best_run ws of
            None \<Rightarrow> False
          | Some (base, len) \<Rightarrow> base = 0 \<and> (len = 6 \<or> (len = 5 \<and> ws ! 5 = 0xffff)))
         \<longleftrightarrow> take 5 ws = replicate 5 0 \<and> (ws ! 5 = 0xffff \<or> (ws ! 5 = 0 \<and> ws ! 6 \<noteq> 0))"
    (is "?run \<longleftrightarrow> ?groups")
proof
  assume ?run
  then obtain len where best: "best_run ws = Some (0, len)"
    and len: "len = 6 \<or> (len = 5 \<and> ws ! 5 = 0xffff)"
    by (auto split: option.splits)
  from best_run_Some(3) [OF best] have zeros: "take len ws = replicate len 0"
    by simp
  from len show ?groups
  proof
    assume six: "len = 6"
    with zeros have "take 6 ws = replicate 6 0"
      by simp
    then have "take 5 (take 6 ws) = take 5 (replicate 6 0)" "take 6 ws ! 5 = replicate 6 0 ! 5"
      by simp_all
    then have "take 5 ws = replicate 5 0" "ws ! 5 = 0"
      by simp_all
    moreover from best_run_maximal [OF best] six assms have "ws ! 6 \<noteq> 0"
      by simp
    ultimately show ?groups
      by simp
  next
    assume "len = 5 \<and> ws ! 5 = 0xffff"
    with zeros show ?groups
      by simp
  qed
next
  assume groups: ?groups
  from assms obtain a b c d e f g h where ws: "ws = [a, b, c, d, e, f, g, h]"
    using list_of_length_8 by blast
  from groups have zeros: "a = 0" "b = 0" "c = 0" "d = 0" "e = 0"
    by (simp_all add: ws replicate_numeral_eval)
  from groups have "f = 0xffff \<or> (f = 0 \<and> g \<noteq> 0)"
    by (simp add: ws)
  then show ?run
  proof
    assume "f = 0xffff"
    then show ?run
      by (simp add: ws zeros best_run_mapped)
  next
    assume "f = 0 \<and> g \<noteq> 0"
    then show ?run
      by (simp add: ws zeros best_run_compatible)
  qed
qed

lemma inet_ntop6_dot_iff:
  assumes "length src = 16"
  shows "CHR ''.'' \<in> set (inet_ntop6 src) \<longleftrightarrow>
           take 5 (groups_of src) = replicate 5 0
           \<and> (groups_of src ! 5 = 0xffff \<or> (groups_of src ! 5 = 0 \<and> groups_of src ! 6 \<noteq> 0))"
proof -
  from assms have "length (groups_of src) = 8"
    by (simp add: length_groups_of)
  then show ?thesis
    unfolding inet_ntop6_dot_run by (rule best_run_dotted)
qed

lemma example_texts:
  "SockAddressToString libc loopback_v4 = ''127.0.0.1''"
  "SockAddressToString libc doc_v6 = ''2001:db8::1''"
  "SockAddressToString libc mapped_v4 = ''::ffff:1.2.3.4''"
  by (simp_all add: SockAddressToString_def loopback_v4_def doc_v6_def mapped_v4_def libc_eval)

lemma example_mapped_parsed:
  "SockAddressFromString libc stale_address ''::ffff:1.2.3.4''
     = \<lparr>Type = SockAddressType_IPV4,
        Addr = [0xDE, 0xAD, 0xBE, 0xEF, 1, 2, 3, 4, 5, 6, 7, 8, 9, 10, 11, 12]\<rparr>"
  by (simp add: SockAddressFromString_def stale_address_def libc_eval)

section \<open>Properties of the address codec\<close>

text \<open>
  C6 as the specification words it: every valid address would come back from its text. With
  the C library's conversion the IPv4-mapped IPv6 address ::ffff:1.2.3.4 is rendered with its
  last four bytes in dotted decimal. The text contains a dot, so \<open>SockAddressFromString\<close> sets
  the tag to IPv4 and hands the text to the IPv4 parser, which rejects it and writes nothing:
  what comes back is tagged IPv4 and is not equal to the address.
\<close>

theorem SockAddress_mapped_v4_not_restored:
  "valid_SockAddress mapped_v4
   \<and> SockAddressToString libc mapped_v4 = ''::ffff:1.2.3.4''
   \<and> SockAddressFromString libc stale_address (SockAddressToString libc mapped_v4)
       = \<lparr>Type = SockAddressType_IPV4,
          Addr = [0xDE, 0xAD, 0xBE, 0xEF, 1, 2, 3, 4, 5, 6, 7, 8, 9, 10, 11, 12]\<rparr>
   \<and> \<not> SockAddress_eq
         (SockAddressFromString libc stale_address (SockAddressToString libc mapped_v4)) mapped_v4
   \<and> SockAddressFromString libc stale_address (SockAddressToString libc mapped_v4) \<noteq> mapped_v4"
proof -
  have "valid_SockAddress mapped_v4"
    by (simp add: valid_SockAddress_def mapped_v4_def)
  moreover have "\<not> SockAddress_eq
      \<lparr>Type = SockAddressType_IPV4,
       Addr = [0xDE, 0xAD, 0xBE, 0xEF, 1, 2, 3, 4, 5, 6, 7, 8, 9, 10, 11, 12]\<rparr> mapped_v4"
    by (simp add: SockAddress_eq_def mapped_v4_def)
  moreover have "\<lparr>Type = SockAddressType_IPV4,
      Addr = [0xDE, 0xAD, 0xBE, 0xEF, 1, 2, 3, 4, 5, 6, 7, 8, 9, 10, 11, 12]\<rparr> \<noteq> mapped_v4"
    by (simp add: mapped_v4_def)
  ultimately show ?thesis
    by (simp add: example_texts example_mapped_parsed)
qed

text \<open>
  C6, amended. \<open>SockAddressFromString\<close> selects IPv4 when the text contains a dot and IPv6
  otherwise. With the C library's conversion, for every valid address and whatever the local
  of \<open>SockAddressFromString\<close> held before: an IPv4 address is rendered with a dot and comes back
  equal (same tag, same four bytes; the rest of the union is what the local held); an IPv6
  address whose text contains no dot comes back equal (same tag, same sixteen bytes); an IPv6
  address whose text contains a dot comes back tagged IPv4 and not equal. The text of an IPv6
  address contains a dot exactly when its first five 16-bit groups are zero and the sixth is
  ffff, or the sixth is zero and the seventh is not (the IPv4-mapped and IPv4-compatible
  addresses).
\<close>

theorem SockAddress_text_roundtrip:
  assumes "valid_SockAddress a"
  shows "(Type a = SockAddressType_IPV4 \<longrightarrow>
            CHR ''.'' \<in> set (SockAddressToString libc a)
            \<and> SockAddressFromString libc addr (SockAddressToString libc a)
                = addr\<lparr>Type := SockAddressType_IPV4,
                       Addr := take 4 (Addr a) @ drop 4 (Addr addr)\<rparr>
            \<and> SockAddress_eq (SockAddressFromString libc addr (SockAddressToString libc a)) a)
         \<and> (Type a = SockAddressType_IPV6 \<and> CHR ''.'' \<notin> set (SockAddressToString libc a) \<longrightarrow>
            SockAddressFromString libc addr (SockAddressToString libc a)
              = addr\<lparr>Type := SockAddressType_IPV6, Addr := Addr a @ drop 16 (Addr addr)\<rparr>
            \<and> SockAddress_eq (SockAddressFromString libc addr (SockAddressToString libc a)) a)
         \<and> (Type a = SockAddressType_IPV6 \<and> CHR ''.'' \<in> set (SockAddressToString libc a) \<longrightarrow>
            Type (SockAddressFromString libc addr (SockAddressToString libc a))
              = SockAddressType_IPV4
            \<and> \<not> SockAddress_eq (SockAddressFromString libc addr (SockAddressToString libc a)) a)
         \<and> (Type a = SockAddressType_IPV6 \<longrightarrow>
            (CHR ''.'' \<in> set (SockAddressToString libc a) \<longleftrightarrow>
               take 5 (groups_of (Addr a)) = replicate 5 0
               \<and> (groups_of (Addr a) ! 5 = 0xffff
                   \<or> (groups_of (Addr a) ! 5 = 0 \<and> groups_of (Addr a) ! 6 \<noteq> 0))))"
proof (intro conjI impI)
  assume v4: "Type a = SockAddressType_IPV4"
  with assms show "CHR ''.'' \<in> set (SockAddressToString libc a)"
    by (rule SockAddress_IPV4_text(1))
  from assms v4 show "SockAddressFromString libc addr (SockAddressToString libc a)
      = addr\<lparr>Type := SockAddressType_IPV4, Addr := take 4 (Addr a) @ drop 4 (Addr addr)\<rparr>"
    by (rule SockAddress_IPV4_text(2))
  with assms v4 show "SockAddress_eq (SockAddressFromString libc addr (SockAddressToString libc a)) a"
    by (simp add: SockAddress_eq_def valid_SockAddress_def)
next
  assume "Type a = SockAddressType_IPV6 \<and> CHR ''.'' \<notin> set (SockAddressToString libc a)"
  then have v6: "Type a = SockAddressType_IPV6"
    and plain: "CHR ''.'' \<notin> set (SockAddressToString libc a)"
    by simp_all
  from assms v6 plain show "SockAddressFromString libc addr (SockAddressToString libc a)
      = addr\<lparr>Type := SockAddressType_IPV6, Addr := Addr a @ drop 16 (Addr addr)\<rparr>"
    by (rule SockAddress_IPV6_text)
  with assms v6 show "SockAddress_eq (SockAddressFromString libc addr (SockAddressToString libc a)) a"
    by (simp add: SockAddress_eq_def valid_SockAddress_def)
next
  assume dotted: "Type a = SockAddressType_IPV6 \<and> CHR ''.'' \<in> set (SockAddressToString libc a)"
  then show "Type (SockAddressFromString libc addr (SockAddressToString libc a))
      = SockAddressType_IPV4"
    by (simp add: SockAddressFromString_Type)
  with dotted show "\<not> SockAddress_eq (SockAddressFromString libc addr (SockAddressToString libc a)) a"
    by (simp add: SockAddress_eq_def)
next
  assume "Type a = SockAddressType_IPV6"
  with assms have "SockAddressToString libc a = inet_ntop6 (Addr a)" and "length (Addr a) = 16"
    by (simp_all add: SockAddressToString_def libc_sel valid_SockAddress_def)
  then show "CHR ''.'' \<in> set (SockAddressToString libc a) \<longleftrightarrow>
      take 5 (groups_of (Addr a)) = replicate 5 0
      \<and> (groups_of (Addr a) ! 5 = 0xffff
          \<or> (groups_of (Addr a) ! 5 = 0 \<and> groups_of (Addr a) ! 6 \<noteq> 0))"
    by (simp only: inet_ntop6_dot_iff)
qed

text \<open>
  The loopback address 127.0.0.1, the address 2001:db8::1 and the IPv4-mapped address
  ::ffff:1.2.3.4, parsed into a local that held \<open>stale_address\<close>.
\<close>

theorem SockAddress_text_roundtrip_witness:
  "valid_SockAddress loopback_v4
   \<and> SockAddress_eq
       (SockAddressFromString libc stale_address (SockAddressToString libc loopback_v4)) loopback_v4
   \<and> valid_SockAddress doc_v6 \<and> CHR ''.'' \<notin> set (SockAddressToString libc doc_v6)
   \<and> SockAddress_eq
       (SockAddressFromString libc stale_address (SockAddressToString libc doc_v6)) doc_v6
   \<and> valid_SockAddress mapped_v4 \<and> CHR ''.'' \<in> set (SockAddressToString libc mapped_v4)
   \<and> \<not> SockAddress_eq
         (SockAddressFromString libc stale_address (SockAddressToString libc mapped_v4)) mapped_v4"
proof -
  have valid: "valid_SockAddress loopback_v4" "valid_SockAddress doc_v6" "valid_SockAddress mapped_v4"
    by (simp_all add: valid_SockAddress_def loopback_v4_def doc_v6_def mapped_v4_def)
  have types: "Type loopback_v4 = SockAddressType_IPV4" "Type doc_v6 = SockAddressType_IPV6"
    "Type mapped_v4 = SockAddressType_IPV6"
    by (simp_all add: loopback_v4_def doc_v6_def mapped_v4_def)
  have dots: "CHR ''.'' \<notin> set (SockAddressToString libc doc_v6)"
    "CHR ''.'' \<in> set (SockAddressToString libc mapped_v4)"
    by (simp_all add: example_texts)
  note v4 = SockAddress_text_roundtrip [where a = loopback_v4 and addr = stale_address,
      OF valid(1), THEN conjunct1, THEN mp, OF types(1)]
  note v6 = SockAddress_text_roundtrip [where a = doc_v6 and addr = stale_address,
      OF valid(2), THEN conjunct2, THEN conjunct1, THEN mp, OF conjI [OF types(2) dots(1)]]
  note mapped = SockAddress_text_roundtrip [where a = mapped_v4 and addr = stale_address,
      OF valid(3), THEN conjunct2, THEN conjunct2, THEN conjunct1, THEN mp,
      OF conjI [OF types(3) dots(2)]]
  from valid(1) v4 [THEN conjunct2, THEN conjunct2] valid(2) dots(1) v6 [THEN conjunct2]
    valid(3) dots(2) mapped [THEN conjunct2]
  show ?thesis
    by (intro conjI)
qed


end
